theory Spec2Isabelle
  imports Complex_Main
begin

section \<open>Values, tasks and agents (src/agents/base\_agent.py)\<close>

text \<open>
  Python values that travel through the dispatcher as payloads and results.
  \<open>PyNone\<close> is Python's \<open>None\<close>; a dict is an association list in insertion order.
\<close>

datatype pyval =
    PyNone
  | PyBool bool
  | PyInt int
  | PyStr string
  | PyList "pyval list"
  | PyDict "(string \<times> pyval) list"

text \<open>
  A \<open>datetime\<close> is a point on the time line; only its order and its rendering by
  \<open>isoformat\<close> matter here. The rendering is a library function and is taken as a
  parameter wherever it is used.
\<close>

type_synonym datetime = nat

text \<open>
  The dataclass \<open>Task\<close>. The fields \<open>id\<close> and \<open>type\<close> are called \<open>task_id\<close> and
  \<open>task_type\<close>. \<open>status\<close> is a plain string in the source, with the values
  \<open>pending\<close>, \<open>running\<close>, \<open>completed\<close> and \<open>failed\<close>. \<open>result\<close> is unset when it is
  \<open>PyNone\<close>.
\<close>

record Task =
  task_id :: string
  task_type :: string
  payload :: pyval
  status :: string
  result :: pyval
  error :: "string option"
  created_at :: datetime
  started_at :: "datetime option"
  completed_at :: "datetime option"

text \<open>
  \<open>Task(type=task_type, payload=payload)\<close>: the defaults of the dataclass, with the
  identifier drawn from \<open>uuid4\<close> and the creation time read from the clock.
\<close>

definition new_task :: "string \<Rightarrow> datetime \<Rightarrow> string \<Rightarrow> pyval \<Rightarrow> Task" where
  "new_task uid now ty pl =
     \<lparr>task_id = uid, task_type = ty, payload = pl, status = ''pending'',
      result = PyNone, error = None, created_at = now,
      started_at = None, completed_at = None\<rparr>"

text \<open>
  \<open>x.isoformat() if x else None\<close>: a datetime object is always truthy, so the
  conditional only tests for \<open>None\<close>.
\<close>

definition iso_or_none :: "(datetime \<Rightarrow> string) \<Rightarrow> datetime option \<Rightarrow> pyval" where
  "iso_or_none isoformat d = (case d of Some x \<Rightarrow> PyStr (isoformat x) | None \<Rightarrow> PyNone)"

definition str_or_none :: "string option \<Rightarrow> pyval" where
  "str_or_none s = (case s of Some x \<Rightarrow> PyStr x | None \<Rightarrow> PyNone)"

definition to_dict :: "(datetime \<Rightarrow> string) \<Rightarrow> Task \<Rightarrow> (string \<times> pyval) list" where
  "to_dict isoformat self =
     [(''id'', PyStr (task_id self)),
      (''type'', PyStr (task_type self)),
      (''payload'', payload self),
      (''status'', PyStr (status self)),
      (''result'', result self),
      (''error'', str_or_none (error self)),
      (''created_at'', PyStr (isoformat (created_at self))),
      (''started_at'', iso_or_none isoformat (started_at self)),
      (''completed_at'', iso_or_none isoformat (completed_at self))]"

text \<open>
  What \<open>execute\<close> hands back to \<open>process_task\<close>: the task object it was given
  (\<open>RetSelf\<close>, as both agents of the repository do), some other \<open>Task\<close> object, or any
  other value (\<open>isinstance(result, Task)\<close> is false).
\<close>

datatype exec_ret = RetSelf | RetTask Task | RetVal pyval

text \<open>
  What a call can raise. \<open>Exc msg\<close> is an instance of \<open>Exception\<close> whose \<open>str\<close> is
  \<open>msg\<close>: a handler \<open>except Exception\<close> catches it. \<open>BaseExc msg\<close> is an exception
  outside \<open>Exception\<close> (\<open>SystemExit\<close>, \<open>KeyboardInterrupt\<close>, \<open>asyncio.CancelledError\<close>):
  such a handler lets it pass.
\<close>

datatype py_exc = Exc string | BaseExc string

text \<open>
  The outcome of one call of \<open>execute\<close>: it raises, or it returns. Either way the
  second component is the state in which the call leaves the task object it was given,
  since \<open>execute\<close> receives the object itself and may assign to its fields.
\<close>

datatype exec_outcome = Raised py_exc Task | Returned exec_ret Task

fun exec_post :: "exec_outcome \<Rightarrow> Task" where
  "exec_post (Raised e t) = t"
| "exec_post (Returned r t) = t"

text \<open>
  \<open>BaseAgent\<close>: \<open>tasks\<close> is the dict \<open>_tasks\<close> from task id to task object, the objects
  being references into the store of the dispatcher (see below); \<open>execute\<close> is the
  abstract method, supplied by each concrete agent. It is a function of the task it is
  given: what it does beyond the task object (calls to a language model or to a platform)
  shows only in its outcome.
\<close>

type_synonym ref = nat

record BaseAgent =
  name :: string
  capabilities :: "string list"
  tasks :: "(string \<times> ref) list"
  execute :: "Task \<Rightarrow> exec_outcome"

definition can_handle :: "BaseAgent \<Rightarrow> string \<Rightarrow> bool" where
  "can_handle self ty = (ty \<in> set (capabilities self))"

definition validate_task :: "BaseAgent \<Rightarrow> Task \<Rightarrow> bool \<times> Task" where
  "validate_task self task =
     (if \<not> can_handle self (task_type task)
      then (False,
            task\<lparr>error := Some (''Agent '' @ name self @ '' cannot handle task type: ''
                                 @ task_type task),
                 status := ''failed''\<rparr>)
      else (True, task))"

text \<open>
  \<open>process_task\<close>. \<open>now1\<close> is what \<open>datetime.now()\<close> returns at the assignment to
  \<open>started_at\<close>, \<open>now2\<close> what it returns at the assignment to \<open>completed_at\<close> (in the
  \<open>try\<close> body or in the handler: one run executes one of the two). In the
  \<open>RetSelf\<close> case \<open>result.result\<close> reads the field of the task object itself.

  The result is the state in which the call leaves the task object, and the exception
  that leaves the call, if any: the handler is \<open>except Exception\<close>, so an exception
  outside \<open>Exception\<close> raised by \<open>execute\<close> propagates to the caller, with the task as
  \<open>execute\<close> left it. When no exception leaves the call, it returns the task object.
\<close>

definition process_task ::
  "BaseAgent \<Rightarrow> datetime \<Rightarrow> datetime \<Rightarrow> Task \<Rightarrow> Task \<times> py_exc option" where
  "process_task self now1 now2 task =
     (case validate_task self task of
        (False, task1) \<Rightarrow> (task1, None)
      | (True, task1) \<Rightarrow>
          (let task2 = task1\<lparr>status := ''running'', started_at := Some now1\<rparr> in
           case execute self task2 of
             Returned res task3 \<Rightarrow>
               (let task4 = task3\<lparr>status := ''completed'', completed_at := Some now2\<rparr> in
                (task4\<lparr>result := (case res of
                                      RetSelf \<Rightarrow> result task4
                                    | RetTask other \<Rightarrow> result other
                                    | RetVal v \<Rightarrow> v)\<rparr>, None))
           | Raised (Exc e) task3 \<Rightarrow>
               (task3\<lparr>status := ''failed'', error := Some e, completed_at := Some now2\<rparr>,
                None)
           | Raised (BaseExc e) task3 \<Rightarrow> (task3, Some (BaseExc e))))"

text \<open>
  How often that run reads the clock: not at all when validation fails, once when an
  exception leaves the call, twice otherwise.
\<close>

definition clock_reads :: "BaseAgent \<Rightarrow> datetime \<Rightarrow> Task \<Rightarrow> nat" where
  "clock_reads self now1 task =
     (if \<not> can_handle self (task_type task) then 0
      else case execute self (task\<lparr>status := ''running'', started_at := Some now1\<rparr>) of
             Raised (BaseExc e) task3 \<Rightarrow> 1
           | _ \<Rightarrow> 2)"

text \<open>
  The same method, recording the task object after every statement that can change it:
  the two assignments of \<open>validate_task\<close>, or the assignments to \<open>status\<close> and
  \<open>started_at\<close>, the call of \<open>execute\<close>, and the three assignments of the \<open>try\<close> body or
  of the handler (none of them when the exception is not caught).
\<close>

definition process_task_trace :: "BaseAgent \<Rightarrow> datetime \<Rightarrow> datetime \<Rightarrow> Task \<Rightarrow> Task list" where
  "process_task_trace self now1 now2 task =
     (if \<not> can_handle self (task_type task)
      then (let a = task\<lparr>error := Some (''Agent '' @ name self @ '' cannot handle task type: ''
                                        @ task_type task)\<rparr>;
                b = a\<lparr>status := ''failed''\<rparr>
            in [a, b])
      else (let a = task\<lparr>status := ''running''\<rparr>;
                b = a\<lparr>started_at := Some now1\<rparr>
            in case execute self b of
                 Returned res c \<Rightarrow>
                   (let d = c\<lparr>status := ''completed''\<rparr>;
                        e = d\<lparr>completed_at := Some now2\<rparr>;
                        f = e\<lparr>result := (case res of
                                            RetSelf \<Rightarrow> result e
                                          | RetTask other \<Rightarrow> result other
                                          | RetVal v \<Rightarrow> v)\<rparr>
                    in [a, b, c, d, e, f])
               | Raised (Exc msg) c \<Rightarrow>
                   (let d = c\<lparr>status := ''failed''\<rparr>;
                        e = d\<lparr>error := Some msg\<rparr>;
                        f = e\<lparr>completed_at := Some now2\<rparr>
                    in [a, b, c, d, e, f])
               | Raised (BaseExc msg) c \<Rightarrow> [a, b, c]))"

text \<open>The values that \<open>status\<close> takes in turn, from the one the task starts with.\<close>

definition status_path :: "BaseAgent \<Rightarrow> datetime \<Rightarrow> datetime \<Rightarrow> Task \<Rightarrow> string list" where
  "status_path self now1 now2 task =
     remdups_adj (map status (task # process_task_trace self now1 now2 task))"

text \<open>
  \<open>create_task\<close>, \<open>get_task\<close> and \<open>get_tasks\<close> are given with the dispatcher below,
  since they allocate or read task objects of the shared store.
\<close>

section \<open>The content creator's \<open>execute\<close> (src/agents/content\_creator.py)\<close>

text \<open>
  The agent declares eight capabilities and dispatches on four of them. The four
  handlers call a language model that is not part of the core; they are parameters.
  For any other type the method stores an error message in the task and returns the
  task normally.
\<close>

definition content_creator_capabilities :: "string list" where
  "content_creator_capabilities =
     [''blog_post'', ''social_media_post'', ''email_newsletter'', ''video_script'',
      ''ad_copy'', ''product_description'', ''content_optimization'', ''seo_analysis'']"

definition content_creator_execute ::
  "(Task \<Rightarrow> exec_outcome) \<Rightarrow> (Task \<Rightarrow> exec_outcome) \<Rightarrow> (Task \<Rightarrow> exec_outcome) \<Rightarrow>
   (Task \<Rightarrow> exec_outcome) \<Rightarrow> Task \<Rightarrow> exec_outcome" where
  "content_creator_execute create_blog_post create_social_media_post create_video_script
       optimize_content task =
     (if task_type task = ''blog_post'' then create_blog_post task
      else if task_type task = ''social_media_post'' then create_social_media_post task
      else if task_type task = ''video_script'' then create_video_script task
      else if task_type task = ''content_optimization'' then optimize_content task
      else Returned RetSelf
             (task\<lparr>error := Some (''Unsupported task type: '' @ task_type task)\<rparr>))"

definition content_creator ::
  "(Task \<Rightarrow> exec_outcome) \<Rightarrow> (Task \<Rightarrow> exec_outcome) \<Rightarrow> (Task \<Rightarrow> exec_outcome) \<Rightarrow>
   (Task \<Rightarrow> exec_outcome) \<Rightarrow> BaseAgent" where
  "content_creator h1 h2 h3 h4 =
     \<lparr>name = ''content_creator'', capabilities = content_creator_capabilities,
      tasks = [], execute = content_creator_execute h1 h2 h3 h4\<rparr>"

section \<open>The dispatcher (src/agents/orchestrator.py)\<close>

text \<open>
  Task objects are shared: the table of the agent that created a task, the queue, the
  two ledgers and the local variables of the workflow runner all hold the same object,
  and the pump loop changes it in place. So tasks live in a store \<open>heap\<close> from
  references to task values, \<open>next_ref\<close> being the next free reference.

  The registry \<open>agents\<close> is a dict keyed by \<open>agent.name\<close>; its only writer is
  \<open>register_agent\<close>, and no code assigns to \<open>name\<close> after construction. It is kept as
  the list of its values in insertion order, the key of an entry being its \<open>name\<close>.

  \<open>clock\<close> and \<open>uuid4\<close> are the successive answers of \<open>datetime.now()\<close> and of
  \<open>uuid.uuid4()\<close>; \<open>ticks\<close> and \<open>uuids\<close> count the answers consumed so far.
\<close>

record Orchestrator =
  agents :: "BaseAgent list"
  task_queue :: "(string \<times> ref) list"
  completed_tasks :: "ref list"
  failed_tasks :: "ref list"
  is_running :: bool
  heap :: "ref \<Rightarrow> Task"
  next_ref :: ref
  clock :: "nat \<Rightarrow> datetime"
  ticks :: nat
  uuid4 :: "nat \<Rightarrow> string"
  uuids :: nat

definition init_orchestrator :: "(nat \<Rightarrow> datetime) \<Rightarrow> (nat \<Rightarrow> string) \<Rightarrow> Orchestrator" where
  "init_orchestrator clk ids =
     \<lparr>agents = [], task_queue = [], completed_tasks = [], failed_tasks = [],
      is_running = False, heap = (\<lambda>r. new_task [] 0 [] PyNone), next_ref = 0,
      clock = clk, ticks = 0, uuid4 = ids, uuids = 0\<rparr>"

text \<open>\<open>d[agent.name] = agent\<close>: a known key keeps its place, a new one goes last.\<close>

fun put_agent :: "BaseAgent \<Rightarrow> BaseAgent list \<Rightarrow> BaseAgent list" where
  "put_agent a [] = [a]"
| "put_agent a (b # bs) = (if name b = name a then a # bs else b # put_agent a bs)"

text \<open>\<open>d[k] = v\<close> on the table of an agent.\<close>

fun put_task :: "string \<Rightarrow> ref \<Rightarrow> (string \<times> ref) list \<Rightarrow> (string \<times> ref) list" where
  "put_task k v [] = [(k, v)]"
| "put_task k v (p # ps) = (if fst p = k then (k, v) # ps else p # put_task k v ps)"

definition register_agent :: "BaseAgent \<Rightarrow> Orchestrator \<Rightarrow> Orchestrator" where
  "register_agent agent s = s\<lparr>agents := put_agent agent (agents s)\<rparr>"

definition get_agent :: "Orchestrator \<Rightarrow> string \<Rightarrow> BaseAgent option" where
  "get_agent s agent_name = find (\<lambda>a. name a = agent_name) (agents s)"

text \<open>The loop of \<open>find_agent_for_task\<close> over \<open>self.agents.values()\<close>.\<close>

fun find_agent_loop :: "BaseAgent list \<Rightarrow> string \<Rightarrow> BaseAgent option" where
  "find_agent_loop [] ty = None"
| "find_agent_loop (agent # rest) ty =
     (if can_handle agent ty then Some agent else find_agent_loop rest ty)"

definition find_agent_for_task :: "Orchestrator \<Rightarrow> string \<Rightarrow> BaseAgent option" where
  "find_agent_for_task s ty = find_agent_loop (agents s) ty"

text \<open>
  An assignment to a field of an agent object changes the object the registry holds
  under the agent's name; a registry that does not hold the agent is not affected.
\<close>

fun update_agent :: "BaseAgent \<Rightarrow> BaseAgent list \<Rightarrow> BaseAgent list" where
  "update_agent a [] = []"
| "update_agent a (b # bs) = (if name b = name a then a # bs else b # update_agent a bs)"

text \<open>
  \<open>BaseAgent.create_task\<close>: a new task object is allocated and entered in the table
  of the agent.
\<close>

definition create_task :: "BaseAgent \<Rightarrow> string \<Rightarrow> pyval \<Rightarrow> Orchestrator \<Rightarrow> ref \<times> Orchestrator" where
  "create_task self ty pl s =
     (let r = next_ref s;
          task = new_task (uuid4 s (uuids s)) (clock s (ticks s)) ty pl;
          self' = self\<lparr>tasks := put_task (task_id task) r (tasks self)\<rparr>
      in (r, s\<lparr>agents := update_agent self' (agents s),
                heap := (heap s)(r := task), next_ref := Suc r,
                ticks := Suc (ticks s), uuids := Suc (uuids s)\<rparr>))"

definition get_task :: "BaseAgent \<Rightarrow> string \<Rightarrow> ref option" where
  "get_task self tid = map_of (tasks self) tid"

text \<open>\<open>get_tasks\<close>: \<open>if status\<close> is false for \<open>None\<close> and for the empty string.\<close>

definition get_tasks :: "BaseAgent \<Rightarrow> (ref \<Rightarrow> Task) \<Rightarrow> string option \<Rightarrow> ref list" where
  "get_tasks self h st =
     (case st of
        Some (c # cs) \<Rightarrow> filter (\<lambda>r. status (h r) = c # cs) (map snd (tasks self))
      | _ \<Rightarrow> map snd (tasks self))"

text \<open>
  The first half of \<open>submit_task\<close>, which chooses the agent. \<open>if agent_name\<close> is false
  for \<open>None\<close> and for the empty string: both are routed by capability.
\<close>

definition choose_agent :: "Orchestrator \<Rightarrow> string \<Rightarrow> string option \<Rightarrow> BaseAgent option" where
  "choose_agent s ty agent_name =
     (case agent_name of
        Some (c # cs) \<Rightarrow>
          (case get_agent s (c # cs) of
             None \<Rightarrow> None
           | Some agent \<Rightarrow> if \<not> can_handle agent ty then None else Some agent)
      | _ \<Rightarrow> find_agent_for_task s ty)"

definition submit_task :: "string \<Rightarrow> pyval \<Rightarrow> string option \<Rightarrow> Orchestrator \<Rightarrow> ref option \<times> Orchestrator" where
  "submit_task ty pl agent_name s =
     (case choose_agent s ty agent_name of
        None \<Rightarrow> (None, s)
      | Some agent \<Rightarrow>
          (case create_task agent ty pl s of
             (r, s1) \<Rightarrow> (Some r, s1\<lparr>task_queue := task_queue s1 @ [(name agent, r)]\<rparr>)))"

definition process_tasks :: "Orchestrator \<Rightarrow> Orchestrator" where
  "process_tasks s = s\<lparr>is_running := True\<rparr>"

definition stop :: "Orchestrator \<Rightarrow> Orchestrator" where
  "stop s = s\<lparr>is_running := False\<rparr>"

text \<open>
  One turn of the pump loop \<open>_worker\<close>, taken as one step (the scheduling of several
  loops and what happens while \<open>execute\<close> is suspended are not modelled). An empty queue
  is the timeout branch. The handlers of the loop are \<open>except asyncio.TimeoutError\<close> and
  \<open>except Exception\<close>: an exception that leaves \<open>process_task\<close> is outside
  \<open>Exception\<close> and leaves the loop as well, after the item was taken from the queue and
  before any ledger is touched. The result is the dispatcher after the turn and that
  exception, if any.
\<close>

definition worker_iter :: "Orchestrator \<Rightarrow> Orchestrator \<times> py_exc option" where
  "worker_iter s =
     (case task_queue s of
        [] \<Rightarrow> (s, None)
      | (agent_name, r) # rest \<Rightarrow>
          (let s1 = s\<lparr>task_queue := rest\<rparr> in
           case get_agent s1 agent_name of
             None \<Rightarrow> (s1, None)
           | Some agent \<Rightarrow>
               (let task = heap s1 r;
                    now1 = clock s1 (ticks s1);
                    now2 = clock s1 (Suc (ticks s1))
                in case process_task agent now1 now2 task of
                     (result_task, escaped) \<Rightarrow>
                       (let s2 = s1\<lparr>heap := (heap s1)(r := result_task),
                                   ticks := ticks s1 + clock_reads agent now1 task\<rparr>
                        in case escaped of
                             Some e \<Rightarrow> (s2, Some e)
                           | None \<Rightarrow>
                               if status result_task = ''completed''
                               then (s2\<lparr>completed_tasks := completed_tasks s2 @ [r]\<rparr>, None)
                               else (s2\<lparr>failed_tasks := failed_tasks s2 @ [r]\<rparr>, None)))))"

text \<open>
  \<open>while self._is_running\<close>: the loop ends when the flag is cleared or when an
  exception leaves a turn; the model runs at most a given number of turns of it.
\<close>

fun worker_loop :: "nat \<Rightarrow> Orchestrator \<Rightarrow> Orchestrator \<times> py_exc option" where
  "worker_loop 0 s = (s, None)"
| "worker_loop (Suc n) s =
     (if is_running s
      then (case worker_iter s of
              (s', None) \<Rightarrow> worker_loop n s'
            | (s', Some e) \<Rightarrow> (s', Some e))
      else (s, None))"

text \<open>What one pump loop does to the dispatcher in one turn.\<close>

definition pump :: "Orchestrator \<Rightarrow> Orchestrator" where
  "pump s = fst (worker_iter s)"

text \<open>
  Python's floats, as far as \<open>get_system_status\<close> needs them. \<open>Dbl m e\<close> is the
  non-negative double of value \<open>m * 2^e\<close>. \<open>to_double num den\<close> is the double nearest
  to the fraction \<open>num / den\<close>, ties going to the even mantissa of 53 bits (binary64,
  round to nearest even; overflow and subnormal numbers do not occur for quotients and
  percentages of list lengths and are not modelled).
\<close>

datatype pyfloat = Dbl nat int

fun float_value :: "pyfloat \<Rightarrow> rat" where
  "float_value (Dbl m e) =
     (if 0 \<le> e then of_nat m * 2 ^ nat e else of_nat m / 2 ^ nat (- e))"

fun bit_length :: "nat \<Rightarrow> nat" where
  "bit_length n = (if n = 0 then 0 else Suc (bit_length (n div 2)))"

definition round_half_even :: "nat \<Rightarrow> nat \<Rightarrow> nat" where
  "round_half_even num den =
     (let q = num div den; r = num mod den
      in if 2 * r < den then q
         else if den < 2 * r then q + 1
         else if even q then q else q + 1)"

definition to_double :: "nat \<Rightarrow> nat \<Rightarrow> pyfloat" where
  "to_double num den =
     (if num = 0 then Dbl 0 0
      else (let e0 = int (bit_length num) - int (bit_length den);
                e = (if den * 2 ^ nat e0 \<le> num * 2 ^ nat (- e0) then e0 else e0 - 1);
                sh = 52 - e
            in Dbl (if 0 \<le> sh then round_half_even (num * 2 ^ nat sh) den
                    else round_half_even num (den * 2 ^ nat (- sh)))
                   (- sh)))"

text \<open>
  \<open>a / b\<close> on two ints is the correctly rounded quotient (the callers test
  \<open>b > 0\<close> first); \<open>x * n\<close> on a float and a small int is the correctly rounded
  product.
\<close>

definition py_truediv :: "nat \<Rightarrow> nat \<Rightarrow> pyfloat" where
  "py_truediv a b = to_double a b"

fun py_float_mul :: "pyfloat \<Rightarrow> nat \<Rightarrow> pyfloat" where
  "py_float_mul (Dbl m e) n =
     (if 0 \<le> e then to_double (m * n * 2 ^ nat e) 1
      else to_double (m * n) (2 ^ nat (- e)))"

text \<open>A Python number: an int or a float.\<close>

datatype pynum = IntNum int | FloatNum pyfloat

fun num_value :: "pynum \<Rightarrow> rat" where
  "num_value (IntNum i) = of_int i"
| "num_value (FloatNum x) = float_value x"

text \<open>
  \<open>get_system_status\<close>. A success rate is the float \<open>completed / total * 100\<close>, or
  the int \<open>0\<close> when there is nothing to divide by.
\<close>

record AgentStatus =
  status_capabilities :: "string list"
  tasks_completed :: nat
  tasks_failed :: nat
  tasks_running :: nat
  agent_success_rate :: pynum

record SystemStatus =
  total_tasks_processed :: nat
  success_rate :: pynum
  queue_size :: nat
  agents_status :: "(string \<times> AgentStatus) list"
  status_is_running :: bool

definition agent_status :: "(ref \<Rightarrow> Task) \<Rightarrow> BaseAgent \<Rightarrow> AgentStatus" where
  "agent_status h agent =
     (let agent_tasks = get_tasks agent h None;
          completed = length (filter (\<lambda>t. status (h t) = ''completed'') agent_tasks);
          failed = length (filter (\<lambda>t. status (h t) = ''failed'') agent_tasks);
          running = length (filter (\<lambda>t. status (h t) = ''running'') agent_tasks)
      in \<lparr>status_capabilities = capabilities agent,
          tasks_completed = completed, tasks_failed = failed, tasks_running = running,
          agent_success_rate =
            (if completed + failed > 0
             then FloatNum (py_float_mul (py_truediv completed (completed + failed)) 100)
             else IntNum 0)\<rparr>)"

definition get_system_status :: "Orchestrator \<Rightarrow> SystemStatus" where
  "get_system_status s =
     (let total_tasks = length (completed_tasks s) + length (failed_tasks s);
          rate = (if total_tasks > 0
                  then FloatNum (py_float_mul
                                   (py_truediv (length (completed_tasks s)) total_tasks) 100)
                  else IntNum 0)
      in \<lparr>total_tasks_processed = total_tasks,
          success_rate = rate,
          queue_size = length (task_queue s),
          agents_status = map (\<lambda>a. (name a, agent_status (heap s) a)) (agents s),
          status_is_running = is_running s\<rparr>)"

section \<open>The workflow runner\<close>

datatype py_error = KeyError string | AttributeError string

text \<open>
  A workflow step is a dict; the runner reads the keys \<open>type\<close> (by subscript, so a
  step without it raises \<open>KeyError\<close>), \<open>payload\<close>, \<open>agent\<close> and \<open>continue_on_failure\<close>
  (by \<open>get\<close>, so they may be absent). The values are taken to be of the types the
  runner expects: strings for \<open>type\<close> and \<open>agent\<close>, a boolean for the flag.
\<close>

record Step =
  step_type :: "string option"
  step_payload :: "pyval option"
  step_agent :: "string option"
  continue_on_failure :: "bool option"

text \<open>
  The re-read in the polling loop,
  \<open>self.get_agent(agent_name).get_task(task.id) if agent_name else None\<close>.
\<close>

definition refetch :: "Orchestrator \<Rightarrow> string option \<Rightarrow> string \<Rightarrow> py_error + ref option" where
  "refetch s agent_name tid =
     (case agent_name of
        Some (c # cs) \<Rightarrow>
          (case get_agent s (c # cs) of
             None \<Rightarrow> Inl (AttributeError ''get_task'')
           | Some agent \<Rightarrow> Inr (get_task agent tid))
      | _ \<Rightarrow> Inr None)"

text \<open>
  The polling loop \<open>while task.status in ['pending', 'running']\<close>. \<open>sleep\<close> is what the
  rest of the event loop (the pump loops) does to the dispatcher during one
  \<open>asyncio.sleep(0.1)\<close>. The loop has no bound in the source: the model counts the
  evaluations of the loop condition, and \<open>None\<close> means the loop is still polling when the
  count is used up. Reading \<open>status\<close> of \<open>None\<close> raises \<open>AttributeError\<close>.
\<close>

fun wait_for_task ::
  "nat \<Rightarrow> (Orchestrator \<Rightarrow> Orchestrator) \<Rightarrow> string option \<Rightarrow> ref option \<Rightarrow> Orchestrator
   \<Rightarrow> (py_error + ref \<times> Orchestrator) option" where
  "wait_for_task 0 sleep agent_name task s = None"
| "wait_for_task (Suc fuel) sleep agent_name task s =
     (case task of
        None \<Rightarrow> Some (Inl (AttributeError ''status''))
      | Some r \<Rightarrow>
          if status (heap s r) = ''pending'' \<or> status (heap s r) = ''running''
          then (let s1 = sleep s in
                case refetch s1 agent_name (task_id (heap s1 r)) of
                  Inl e \<Rightarrow> Some (Inl e)
                | Inr task' \<Rightarrow> wait_for_task fuel sleep agent_name task' s1)
          else Some (Inr (r, s)))"

text \<open>
  The body of the \<open>for\<close> loop: the flag of the result says whether the body ends in
  \<open>break\<close>.
\<close>

definition workflow_step ::
  "nat \<Rightarrow> (Orchestrator \<Rightarrow> Orchestrator) \<Rightarrow> Step \<Rightarrow> ref list \<Rightarrow> Orchestrator
   \<Rightarrow> (py_error + bool \<times> ref list \<times> Orchestrator) option" where
  "workflow_step fuel sleep step results s =
     (case step_type step of
        None \<Rightarrow> Some (Inl (KeyError ''type''))
      | Some ty \<Rightarrow>
          (let pl = (case step_payload step of None \<Rightarrow> PyDict [] | Some p \<Rightarrow> p);
               agent_name = step_agent step
           in case submit_task ty pl agent_name s of
                (None, s1) \<Rightarrow> Some (Inr (False, results, s1))
              | (Some r, s1) \<Rightarrow>
                  (case wait_for_task fuel sleep agent_name (Some r) s1 of
                     None \<Rightarrow> None
                   | Some (Inl e) \<Rightarrow> Some (Inl e)
                   | Some (Inr (r', s2)) \<Rightarrow>
                       Some (Inr (status (heap s2 r') = ''failed''
                                    \<and> \<not> (case continue_on_failure step of
                                            None \<Rightarrow> True | Some b \<Rightarrow> b),
                                  results @ [r'], s2)))))"

fun execute_workflow_loop ::
  "nat \<Rightarrow> (Orchestrator \<Rightarrow> Orchestrator) \<Rightarrow> Step list \<Rightarrow> ref list \<Rightarrow> Orchestrator
   \<Rightarrow> (py_error + ref list \<times> Orchestrator) option" where
  "execute_workflow_loop fuel sleep [] results s = Some (Inr (results, s))"
| "execute_workflow_loop fuel sleep (step # rest) results s =
     (case workflow_step fuel sleep step results s of
        None \<Rightarrow> None
      | Some (Inl e) \<Rightarrow> Some (Inl e)
      | Some (Inr (brk, results', s')) \<Rightarrow>
          if brk then Some (Inr (results', s'))
          else execute_workflow_loop fuel sleep rest results' s')"

definition execute_workflow ::
  "nat \<Rightarrow> (Orchestrator \<Rightarrow> Orchestrator) \<Rightarrow> Step list \<Rightarrow> Orchestrator
   \<Rightarrow> (py_error + ref list \<times> Orchestrator) option" where
  "execute_workflow fuel sleep workflow s = execute_workflow_loop fuel sleep workflow [] s"

section \<open>Two agents for worked examples\<close>

text \<open>
  An agent \<open>w1\<close> that can handle \<open>echo\<close> and returns its payload's \<open>text\<close> entry,
  an agent \<open>w2\<close> that can handle \<open>fail\<close> and always raises \<open>Exception('boom')\<close>, and
  an agent \<open>w3\<close> that can handle \<open>wait\<close> and is cancelled while it waits, so that
  \<open>asyncio.CancelledError\<close> is raised in its \<open>execute\<close>.
\<close>

definition echo_execute :: "Task \<Rightarrow> exec_outcome" where
  "echo_execute task =
     Returned (RetVal (PyDict [(''echoed'',
        (case payload task of
           PyDict kvs \<Rightarrow> (case map_of kvs ''text'' of Some v \<Rightarrow> v | None \<Rightarrow> PyNone)
         | _ \<Rightarrow> PyNone))])) task"

definition w1 :: BaseAgent where
  "w1 = \<lparr>name = ''w1'', capabilities = [''echo''], tasks = [], execute = echo_execute\<rparr>"

definition w2 :: BaseAgent where
  "w2 = \<lparr>name = ''w2'', capabilities = [''fail''], tasks = [],
         execute = (\<lambda>task. Raised (Exc ''boom'') task)\<rparr>"

definition w3 :: BaseAgent where
  "w3 = \<lparr>name = ''w3'', capabilities = [''wait''], tasks = [],
         execute = (\<lambda>task. Raised (BaseExc ''CancelledError'') task)\<rparr>"

text \<open>A clock that advances by one at every reading, and identifiers \<open>u\<close>, \<open>uu\<close>, ...\<close>

definition demo :: Orchestrator where
  "demo = process_tasks (register_agent w2 (register_agent w1
            (init_orchestrator (\<lambda>n. n) (\<lambda>n. replicate (Suc n) CHR ''u''))))"

text \<open>
  The dispatcher after \<open>submit_task('fail', {})\<close> and
  \<open>submit_task('echo', {'text': 'hi'})\<close>, in this order.
\<close>

definition demo_queue :: Orchestrator where
  "demo_queue = snd (submit_task ''echo'' (PyDict [(''text'', PyStr ''hi'')]) None
                  (snd (submit_task ''fail'' (PyDict []) None demo)))"

text \<open>
  Workflow steps: one that names \<open>w2\<close>, with a given flag; one of type \<open>fail\<close> that
  names no agent and must not be continued past; one that echoes.
\<close>

definition fail_step :: "bool option \<Rightarrow> Step" where
  "fail_step flag = \<lparr>step_type = Some ''fail'', step_payload = None,
                      step_agent = Some ''w2'', continue_on_failure = flag\<rparr>"

definition routed_fail_step :: Step where
  "routed_fail_step = \<lparr>step_type = Some ''fail'', step_payload = None,
                         step_agent = None, continue_on_failure = Some False\<rparr>"

definition echo_step :: "string option \<Rightarrow> Step" where
  "echo_step agent_name =
     \<lparr>step_type = Some ''echo'', step_payload = Some (PyDict [(''text'', PyStr ''hi'')]),
      step_agent = agent_name, continue_on_failure = None\<rparr>"

text \<open>
  The dispatcher after \<open>submit_task('fail', {}, 'w2')\<close>, and after one more turn of
  the pump loop.
\<close>

definition demo_submitted :: Orchestrator where
  "demo_submitted = snd (submit_task ''fail'' (PyDict []) (Some ''w2'') demo)"

definition demo_failed :: Orchestrator where
  "demo_failed = pump demo_submitted"

text \<open>
  A dispatcher with \<open>w1\<close> and \<open>w3\<close>, after \<open>submit_task('wait', {})\<close> and
  \<open>submit_task('echo', {'text': 'hi'})\<close>, in this order.
\<close>

definition demo_cancel :: Orchestrator where
  "demo_cancel = snd (submit_task ''echo'' (PyDict [(''text'', PyStr ''hi'')]) None
                   (snd (submit_task ''wait'' (PyDict []) None
                      (process_tasks (register_agent w3 (register_agent w1
                         (init_orchestrator (\<lambda>n. n) (\<lambda>n. replicate (Suc n) CHR ''u''))))))))"

text \<open>
  The dispatcher \<open>demo\<close> after a step for \<open>fail\<close> that names no agent has been
  submitted.
\<close>

definition demo_routed :: Orchestrator where
  "demo_routed = snd (submit_task ''fail'' (PyDict []) None demo)"

section \<open>Properties of the task driver\<close>

lemma process_task_trace_last:
  "last (process_task_trace self now1 now2 task) = fst (process_task self now1 now2 task)"
  by (simp add: process_task_trace_def process_task_def validate_task_def Let_def
           split: exec_outcome.splits py_exc.splits)

text \<open>
  C10. \<open>to_dict\<close> has no failing branch: for every task, also one whose \<open>started_at\<close>
  or \<open>completed_at\<close> is unset, it yields a mapping with exactly the nine keys, each
  bound to the field of the task of that name: \<open>id\<close>, \<open>type\<close> and \<open>status\<close> as the
  strings they are, \<open>payload\<close> and \<open>result\<close> as they are, \<open>error\<close> as its string or
  \<open>None\<close>, \<open>created_at\<close> as the ISO string of the creation time, and \<open>started_at\<close>,
  \<open>completed_at\<close> as ISO strings when set and \<open>None\<close> when unset.
\<close>

theorem to_dict_nine_fields:
  "map fst (to_dict isoformat t) =
     [''id'', ''type'', ''payload'', ''status'', ''result'', ''error'',
      ''created_at'', ''started_at'', ''completed_at'']
   \<and> map_of (to_dict isoformat t) ''id'' = Some (PyStr (task_id t))
   \<and> map_of (to_dict isoformat t) ''type'' = Some (PyStr (task_type t))
   \<and> map_of (to_dict isoformat t) ''payload'' = Some (payload t)
   \<and> map_of (to_dict isoformat t) ''status'' = Some (PyStr (status t))
   \<and> map_of (to_dict isoformat t) ''result'' = Some (result t)
   \<and> map_of (to_dict isoformat t) ''error''
       = Some (case error t of None \<Rightarrow> PyNone | Some e \<Rightarrow> PyStr e)
   \<and> map_of (to_dict isoformat t) ''created_at'' = Some (PyStr (isoformat (created_at t)))
   \<and> map_of (to_dict isoformat t) ''started_at''
       = Some (case started_at t of None \<Rightarrow> PyNone | Some d \<Rightarrow> PyStr (isoformat d))
   \<and> map_of (to_dict isoformat t) ''completed_at''
       = Some (case completed_at t of None \<Rightarrow> PyNone | Some d \<Rightarrow> PyStr (isoformat d))"
  by (simp add: to_dict_def iso_or_none_def str_or_none_def split: option.splits)

lemma new_task_sel [simp]:
  "task_id (new_task uid now ty pl) = uid"
  "task_type (new_task uid now ty pl) = ty"
  "payload (new_task uid now ty pl) = pl"
  "status (new_task uid now ty pl) = ''pending''"
  "result (new_task uid now ty pl) = PyNone"
  "error (new_task uid now ty pl) = None"
  "created_at (new_task uid now ty pl) = now"
  "started_at (new_task uid now ty pl) = None"
  "completed_at (new_task uid now ty pl) = None"
  by (simp_all add: new_task_def)

text \<open>What \<open>process_task\<close> leaves behind on each of its four paths.\<close>

lemma process_task_mismatch:
  "\<not> can_handle self (task_type task) \<Longrightarrow>
     process_task self now1 now2 task =
       (task\<lparr>error := Some (''Agent '' @ name self @ '' cannot handle task type: ''
                             @ task_type task),
             status := ''failed''\<rparr>, None)"
  by (simp add: process_task_def validate_task_def)

lemma process_task_raised:
  "can_handle self (task_type task) \<Longrightarrow>
   execute self (task\<lparr>status := ''running'', started_at := Some now1\<rparr>)
     = Raised (Exc msg) t \<Longrightarrow>
     process_task self now1 now2 task =
       (t\<lparr>status := ''failed'', error := Some msg, completed_at := Some now2\<rparr>, None)"
  by (simp add: process_task_def validate_task_def)

lemma process_task_escaped:
  "can_handle self (task_type task) \<Longrightarrow>
   execute self (task\<lparr>status := ''running'', started_at := Some now1\<rparr>)
     = Raised (BaseExc msg) t \<Longrightarrow>
     process_task self now1 now2 task = (t, Some (BaseExc msg))"
  by (simp add: process_task_def validate_task_def)

lemma process_task_returned_value:
  "can_handle self (task_type task) \<Longrightarrow>
   execute self (task\<lparr>status := ''running'', started_at := Some now1\<rparr>)
     = Returned (RetVal v) t \<Longrightarrow>
     process_task self now1 now2 task =
       (t\<lparr>status := ''completed'', completed_at := Some now2, result := v\<rparr>, None)"
  by (simp add: process_task_def validate_task_def)

text \<open>
  With a clock that does not run backwards and an \<open>execute\<close> that leaves the time
  stamps alone, a task that was run to its end carries its three time stamps in order.
\<close>

lemma process_task_timestamps:
  assumes "can_handle self (task_type task)"
      and "snd (process_task self now1 now2 task) = None"
      and "created_at task \<le> now1" and "now1 \<le> now2"
      and "created_at (exec_post (execute self (task\<lparr>status := ''running'',
                                                      started_at := Some now1\<rparr>)))
             = created_at task"
      and "started_at (exec_post (execute self (task\<lparr>status := ''running'',
                                                      started_at := Some now1\<rparr>)))
             = Some now1"
  shows "started_at (fst (process_task self now1 now2 task)) = Some now1
       \<and> completed_at (fst (process_task self now1 now2 task)) = Some now2
       \<and> created_at (fst (process_task self now1 now2 task)) \<le> now1"
proof (cases "execute self (task\<lparr>status := ''running'', started_at := Some now1\<rparr>)")
  case (Raised e t)
  with assms show ?thesis
    by (cases e) (simp_all add: process_task_def validate_task_def Let_def)
next
  case (Returned res t)
  with assms show ?thesis
    by (simp add: process_task_def validate_task_def Let_def)
qed

text \<open>
  C1. A pending task driven by \<open>process_task\<close>, whose \<open>execute\<close> leaves \<open>status\<close> as
  it found it (the contract of \<open>execute\<close>; the two agents of the repository assign only
  to \<open>result\<close> and \<open>error\<close>), takes the statuses pending, failed when the agent cannot
  handle its type, and otherwise pending, running, completed when \<open>execute\<close> returns and
  pending, running, failed when it raises an \<open>Exception\<close>; when it raises an exception
  that \<open>process_task\<close> does not catch, the path ends at running. No status occurs twice
  on the path.
\<close>

theorem process_task_status_path:
  assumes "status task = ''pending''"
      and "status (exec_post (execute self (task\<lparr>status := ''running'', started_at := Some now1\<rparr>)))
             = ''running''"
  shows "status_path self now1 now2 task =
           (if \<not> can_handle self (task_type task) then [''pending'', ''failed'']
            else case execute self (task\<lparr>status := ''running'', started_at := Some now1\<rparr>) of
                   Returned res t \<Rightarrow> [''pending'', ''running'', ''completed'']
                 | Raised (Exc msg) t \<Rightarrow> [''pending'', ''running'', ''failed'']
                 | Raised (BaseExc msg) t \<Rightarrow> [''pending'', ''running''])
         \<and> distinct (status_path self now1 now2 task)"
proof -
  have path: "status_path self now1 now2 task =
           (if \<not> can_handle self (task_type task) then [''pending'', ''failed'']
            else case execute self (task\<lparr>status := ''running'', started_at := Some now1\<rparr>) of
                   Returned res t \<Rightarrow> [''pending'', ''running'', ''completed'']
                 | Raised (Exc msg) t \<Rightarrow> [''pending'', ''running'', ''failed'']
                 | Raised (BaseExc msg) t \<Rightarrow> [''pending'', ''running''])"
    using assms
    by (auto simp add: status_path_def process_task_trace_def Let_def
             split: exec_outcome.splits py_exc.splits)
  have "distinct (status_path self now1 now2 task)"
    unfolding path by (simp split: exec_outcome.splits py_exc.splits)
  with path show ?thesis by (rule conjI)
qed

theorem process_task_status_path_witness:
  "status (new_task ''u'' 0 ''echo'' (PyDict [(''text'', PyStr ''hi'')])) = ''pending''
   \<and> status_path w1 1 2 (new_task ''u'' 0 ''echo'' (PyDict [(''text'', PyStr ''hi'')]))
       = [''pending'', ''running'', ''completed'']
   \<and> status_path w2 1 2 (new_task ''u'' 0 ''fail'' (PyDict []))
       = [''pending'', ''running'', ''failed'']
   \<and> status_path w2 1 2 (new_task ''u'' 0 ''echo'' (PyDict []))
       = [''pending'', ''failed'']
   \<and> status_path w3 1 2 (new_task ''u'' 0 ''wait'' (PyDict []))
       = [''pending'', ''running'']"
  using process_task_status_path [of "new_task ''u'' 0 ''echo'' (PyDict [(''text'', PyStr ''hi'')])" w1 1 2]
        process_task_status_path [of "new_task ''u'' 0 ''fail'' (PyDict [])" w2 1 2]
        process_task_status_path [of "new_task ''u'' 0 ''echo'' (PyDict [])" w2 1 2]
        process_task_status_path [of "new_task ''u'' 0 ''wait'' (PyDict [])" w3 1 2]
  by (simp add: w1_def w2_def w3_def echo_execute_def can_handle_def)

text \<open>
  C2. The content creator declares the capability \<open>email_newsletter\<close>, but its
  \<open>execute\<close> has no branch for it: it stores an error message and returns the task.
  \<open>process_task\<close> then marks the task completed. The task ends with status
  \<open>completed\<close>, no result, and an error.
\<close>

theorem content_creator_unsupported_type:
  "process_task (content_creator h1 h2 h3 h4) now1 now2
     (new_task uid now0 ''email_newsletter'' pl)
   = (\<lparr>task_id = uid, task_type = ''email_newsletter'', payload = pl,
       status = ''completed'', result = PyNone,
       error = Some ''Unsupported task type: email_newsletter'',
       created_at = now0, started_at = Some now1, completed_at = Some now2\<rparr>, None)"
  by (simp add: process_task_def validate_task_def can_handle_def content_creator_def
        content_creator_capabilities_def content_creator_execute_def new_task_def)

text \<open>
  C3. A task whose type the agent cannot handle ends with status \<open>failed\<close> while
  \<open>completed_at\<close> (and \<open>started_at\<close>) is still unset: \<open>validate_task\<close> assigns \<open>error\<close>
  and \<open>status\<close> only, where the exception handler of \<open>process_task\<close> also assigns
  \<open>completed_at\<close>.
\<close>

theorem capability_mismatch_leaves_completed_at_unset:
  "process_task w1 now1 now2 (new_task uid now0 ''unknown'' pl)
   = (\<lparr>task_id = uid, task_type = ''unknown'', payload = pl,
       status = ''failed'', result = PyNone,
       error = Some ''Agent w1 cannot handle task type: unknown'',
       created_at = now0, started_at = None, completed_at = None\<rparr>, None)"
  by (simp add: process_task_def validate_task_def can_handle_def w1_def new_task_def)

section \<open>Properties of the dispatcher\<close>

lemma demo_eq:
  "demo = \<lparr>agents = [w1, w2], task_queue = [], completed_tasks = [], failed_tasks = [],
      is_running = True, heap = (\<lambda>r. new_task [] 0 [] PyNone), next_ref = 0,
      clock = (\<lambda>n. n), ticks = 0, uuid4 = (\<lambda>n. replicate (Suc n) CHR ''u''), uuids = 0\<rparr>"
  by (simp add: demo_def process_tasks_def register_agent_def init_orchestrator_def w1_def w2_def)

lemma demo_queue_eq:
  "demo_queue = \<lparr>agents = [w1\<lparr>tasks := [(''uu'', 1)]\<rparr>, w2\<lparr>tasks := [(''u'', 0)]\<rparr>],
      task_queue = [(''w2'', 0), (''w1'', 1)], completed_tasks = [], failed_tasks = [],
      is_running = True,
      heap = (\<lambda>r. new_task [] 0 [] PyNone)
               (0 := new_task ''u'' 0 ''fail'' (PyDict []),
                1 := new_task ''uu'' 1 ''echo'' (PyDict [(''text'', PyStr ''hi'')])),
      next_ref = 2,
      clock = (\<lambda>n. n), ticks = 2, uuid4 = (\<lambda>n. replicate (Suc n) CHR ''u''), uuids = 2\<rparr>"
  by (simp add: demo_queue_def demo_eq submit_task_def choose_agent_def find_agent_for_task_def
       can_handle_def create_task_def Let_def w1_def w2_def numeral_2_eq_2)

lemma demo_queue_iter2:
  "pump (pump demo_queue) =
     \<lparr>agents = [w1\<lparr>tasks := [(''uu'', 1)]\<rparr>, w2\<lparr>tasks := [(''u'', 0)]\<rparr>],
      task_queue = [], completed_tasks = [1], failed_tasks = [0],
      is_running = True,
      heap = (\<lambda>r. new_task [] 0 [] PyNone)
               (0 := (new_task ''u'' 0 ''fail'' (PyDict []))
                       \<lparr>status := ''failed'', error := Some ''boom'',
                        started_at := Some 2, completed_at := Some 3\<rparr>,
                1 := (new_task ''uu'' 1 ''echo'' (PyDict [(''text'', PyStr ''hi'')]))
                       \<lparr>status := ''completed'', result := PyDict [(''echoed'', PyStr ''hi'')],
                        started_at := Some 4, completed_at := Some 5\<rparr>),
      next_ref = 2,
      clock = (\<lambda>n. n), ticks = 6, uuid4 = (\<lambda>n. replicate (Suc n) CHR ''u''), uuids = 2\<rparr>"
  by (simp add: demo_queue_eq pump_def worker_iter_def get_agent_def process_task_def
        validate_task_def clock_reads_def can_handle_def w1_def w2_def echo_execute_def
        Let_def new_task_def)

lemma get_agent_queue [simp]: "get_agent (s\<lparr>task_queue := q\<rparr>) n = get_agent s n"
  by (simp add: get_agent_def)

lemma find_agent_loop_None:
  "(find_agent_loop xs ty = None) = (\<forall>a \<in> set xs. \<not> can_handle a ty)"
  by (induction xs) auto

lemma find_agent_loop_Some:
  "find_agent_loop xs ty = Some a \<Longrightarrow>
     \<exists>i < length xs. xs ! i = a \<and> can_handle a ty \<and> (\<forall>j < i. \<not> can_handle (xs ! j) ty)"
proof (induction xs)
  case Nil
  then show ?case by simp
next
  case (Cons x xs)
  show ?case
  proof (cases "can_handle x ty")
    case True
    with Cons.prems have "x = a" by simp
    with True show ?thesis by (intro exI [of _ 0]) simp
  next
    case False
    with Cons.prems have "find_agent_loop xs ty = Some a" by simp
    from Cons.IH [OF this] obtain i where i: "i < length xs" "xs ! i = a" "can_handle a ty"
      "\<forall>j < i. \<not> can_handle (xs ! j) ty" by blast
    have "\<forall>j < Suc i. \<not> can_handle ((x # xs) ! j) ty"
      using False i(4) by (auto simp: less_Suc_eq_0_disj)
    with i show ?thesis by (intro exI [of _ "Suc i"]) simp
  qed
qed

lemma put_agent_fresh:
  "name a \<notin> name ` set xs \<Longrightarrow> put_agent a xs = xs @ [a]"
  by (induction xs) auto

lemma put_agent_known:
  "name b = name a \<Longrightarrow> name a \<notin> name ` set xs \<Longrightarrow> put_agent a (xs @ b # ys) = xs @ a # ys"
  by (induction xs) auto

lemma fold_register_agents:
  "agents (fold register_agent as s) = fold put_agent as (agents s)"
  by (induction as arbitrary: s) (simp_all add: register_agent_def)

lemma fold_put_agent_distinct:
  "distinct (map name (xs @ as)) \<Longrightarrow> fold put_agent as xs = xs @ as"
proof (induction as arbitrary: xs)
  case Nil
  then show ?case by simp
next
  case (Cons a as)
  from Cons.prems have "name a \<notin> name ` set xs" by auto
  then have "put_agent a xs = xs @ [a]" by (rule put_agent_fresh)
  moreover from Cons.prems have "distinct (map name ((xs @ [a]) @ as))" by simp
  ultimately show ?case using Cons.IH [of "xs @ [a]"] by simp
qed

text \<open>
  C9. For every registry and every task type, \<open>find_agent_for_task\<close> returns
  \<open>None\<close> exactly when no registered agent can handle the type; an agent it returns
  can handle the type and stands before every other registered agent that can. The order
  of the registry is the order of registration: agents with distinct names, registered
  one after the other in a fresh dispatcher, are held in that order. (Registering a name
  again replaces the agent at the place of the name, see \<open>put_agent_known\<close>.)
\<close>

theorem find_agent_for_task_first:
  "(find_agent_for_task s ty = None) = (\<forall>a \<in> set (agents s). \<not> can_handle a ty)
   \<and> (\<forall>agent. find_agent_for_task s ty = Some agent \<longrightarrow>
         can_handle agent ty
         \<and> (\<exists>i < length (agents s). agents s ! i = agent
               \<and> (\<forall>j < i. \<not> can_handle (agents s ! j) ty)))
   \<and> (distinct (map name as) \<longrightarrow>
         agents (fold register_agent as (init_orchestrator clk ids)) = as)"
proof (intro conjI allI impI)
  show "(find_agent_for_task s ty = None) = (\<forall>a \<in> set (agents s). \<not> can_handle a ty)"
    by (simp add: find_agent_for_task_def find_agent_loop_None)
next
  fix agent assume a: "find_agent_for_task s ty = Some agent"
  then have "find_agent_loop (agents s) ty = Some agent"
    by (simp add: find_agent_for_task_def)
  from find_agent_loop_Some [OF this]
  show "can_handle agent ty" 
    and "\<exists>i < length (agents s). agents s ! i = agent \<and> (\<forall>j < i. \<not> can_handle (agents s ! j) ty)"
    by blast+
next
  assume "distinct (map name as)"
  then show "agents (fold register_agent as (init_orchestrator clk ids)) = as"
    using fold_put_agent_distinct [of "[]" as]
    by (simp add: fold_register_agents init_orchestrator_def)
qed

theorem find_agent_for_task_first_witness:
  "find_agent_for_task demo ''fail'' = Some w2
   \<and> can_handle w2 ''fail''
   \<and> agents demo ! 1 = w2
   \<and> \<not> can_handle (agents demo ! 0) ''fail''
   \<and> find_agent_for_task demo ''unknown'' = None
   \<and> agents (fold register_agent [w1, w2] (init_orchestrator (\<lambda>n. n) (\<lambda>n. []))) = [w1, w2]"
proof -
  have d: "distinct (map name [w1, w2])" by (simp add: w1_def w2_def)
  have f: "find_agent_for_task demo ''fail'' = Some w2"
    by (simp add: demo_eq find_agent_for_task_def can_handle_def w1_def w2_def)
  have n: "\<forall>a \<in> set (agents demo). \<not> can_handle a ''unknown''"
    by (simp add: demo_eq can_handle_def w1_def w2_def)
  from find_agent_for_task_first [of demo "''unknown''" "[w1, w2]" "\<lambda>n. n" "\<lambda>n. []"] d n
  have "find_agent_for_task demo ''unknown'' = None
        \<and> agents (fold register_agent [w1, w2] (init_orchestrator (\<lambda>n. n) (\<lambda>n. []))) = [w1, w2]"
    by blast
  moreover from find_agent_for_task_first [of demo "''fail''" "[w1, w2]" "\<lambda>n. n" "\<lambda>n. []"] f
  have "can_handle w2 ''fail''" by blast
  moreover have "agents demo ! 1 = w2" "\<not> can_handle (agents demo ! 0) ''fail''"
    by (simp_all add: demo_eq can_handle_def w1_def)
  ultimately show ?thesis using f by blast
qed

text \<open>
  The names in the registry stay distinct: it starts empty, and no operation of the
  dispatcher introduces a second agent of the same name.
\<close>

lemma names_put_agent: "set (map name (put_agent a xs)) = insert (name a) (set (map name xs))"
  by (induction xs) auto

lemma distinct_put_agent:
  "distinct (map name xs) \<Longrightarrow> distinct (map name (put_agent a xs))"
proof (induction xs)
  case Nil
  then show ?case by simp
next
  case (Cons b bs)
  then show ?case
    using names_put_agent [of a bs] by auto
qed

lemma map_name_update_agent: "map name (update_agent a xs) = map name xs"
  by (induction xs) auto

lemma registry_names_distinct:
  "agents (init_orchestrator clk ids) = []"
  "distinct (map name (agents s)) \<Longrightarrow> distinct (map name (agents (register_agent a s)))"
  "distinct (map name (agents s)) \<Longrightarrow>
     distinct (map name (agents (snd (submit_task ty pl agent_name s))))"
  "agents (fst (worker_iter s)) = agents s"
  by (auto simp add: init_orchestrator_def register_agent_def distinct_put_agent
        submit_task_def create_task_def Let_def map_name_update_agent worker_iter_def
        split: option.splits list.splits prod.splits)

lemma find_name_distinct:
  "distinct (map name xs) \<Longrightarrow>
     (find (\<lambda>a. name a = n) xs = Some a) = (a \<in> set xs \<and> name a = n)"
  by (induction xs) (auto simp: image_iff)

lemma find_name_None:
  "(find (\<lambda>a. name a = n) xs = None) = (\<forall>a \<in> set xs. name a \<noteq> n)"
  by (induction xs) auto

lemma find_update_agent:
  "b \<in> set xs \<Longrightarrow> name b = name a \<Longrightarrow>
     find (\<lambda>b. name b = name a) (update_agent a xs) = Some a"
  by (induction xs) auto

lemma map_of_put_task: "map_of (put_task k v xs) k = Some v"
  by (induction xs) auto

lemma find_agent_loop_in:
  "find_agent_loop xs ty = Some a \<Longrightarrow> a \<in> set xs \<and> can_handle a ty"
  by (induction xs) (auto split: if_splits)

lemma choose_agent_None:
  assumes "distinct (map name (agents s))"
  shows "(choose_agent s ty agent_name = None) =
           (case agent_name of
              Some (c # cs) \<Rightarrow> \<not> (\<exists>a \<in> set (agents s). name a = c # cs \<and> can_handle a ty)
            | _ \<Rightarrow> \<not> (\<exists>a \<in> set (agents s). can_handle a ty))"
proof (cases agent_name)
  case None
  then show ?thesis
    by (simp add: choose_agent_def find_agent_for_task_def find_agent_loop_None)
next
  case (Some n)
  show ?thesis
  proof (cases n)
    case Nil
    with Some show ?thesis
      by (simp add: choose_agent_def find_agent_for_task_def find_agent_loop_None)
  next
    case (Cons c cs)
    show ?thesis
    proof (cases "find (\<lambda>a. name a = c # cs) (agents s)")
      case None
      then have "\<forall>a \<in> set (agents s). name a \<noteq> c # cs"
        by (simp add: find_name_None)
      with None Some Cons show ?thesis
        by (auto simp add: choose_agent_def get_agent_def)
    next
      case (Some a)
      have a: "\<And>b. (b \<in> set (agents s) \<and> name b = c # cs) = (b = a)"
        by (metis find_name_distinct [OF assms] Some option.inject)
      then have "(\<exists>b \<in> set (agents s). name b = c # cs \<and> can_handle b ty) = can_handle a ty"
        by metis
      then have ex: "(\<not> (\<exists>b \<in> set (agents s). name b = c # cs \<and> can_handle b ty))
                      = (\<not> can_handle a ty)"
        by (rule arg_cong)
      have "(choose_agent s ty agent_name = None) = (\<not> can_handle a ty)"
        using Some \<open>agent_name = Some n\<close> Cons by (simp add: choose_agent_def get_agent_def)
      also have "\<dots> = (\<not> (\<exists>b \<in> set (agents s). name b = c # cs \<and> can_handle b ty))"
        by (rule ex [symmetric])
      also have "\<dots> = (case agent_name of
              Some (c # cs) \<Rightarrow> \<not> (\<exists>a \<in> set (agents s). name a = c # cs \<and> can_handle a ty)
            | _ \<Rightarrow> \<not> (\<exists>a \<in> set (agents s). can_handle a ty))"
        by (simp only: \<open>agent_name = Some n\<close> Cons option.case list.case)
      finally show ?thesis .
    qed
  qed
qed

lemma choose_agent_Some:
  assumes "choose_agent s ty agent_name = Some agent"
  shows "agent \<in> set (agents s) \<and> can_handle agent ty
         \<and> (case agent_name of
               Some (c # cs) \<Rightarrow> name agent = c # cs
             | _ \<Rightarrow> find_agent_for_task s ty = Some agent)"
proof (cases agent_name)
  case None
  with assms show ?thesis
    by (auto simp add: choose_agent_def find_agent_for_task_def dest: find_agent_loop_in)
next
  case (Some n)
  show ?thesis
  proof (cases n)
    case Nil
    with Some assms show ?thesis
      by (auto simp add: choose_agent_def find_agent_for_task_def dest: find_agent_loop_in)
  next
    case (Cons c cs)
    with Some assms show ?thesis
      by (auto simp add: choose_agent_def get_agent_def find_Some_iff
               split: option.splits if_splits)
  qed
qed

lemma submit_task_empty_name:
  "submit_task ty pl (Some []) s = submit_task ty pl None s"
  by (simp add: submit_task_def choose_agent_def)

text \<open>
  C5. In a registry (the names of the agents are distinct, as the keys of the dict are),
  \<open>submit_task\<close> returns \<open>None\<close> exactly when routing fails: a worker name is given
  and no registered agent has that name and can handle the type, or no name is given and
  no registered agent can handle the type. A name is given when \<open>agent_name\<close> is a
  non-empty string: the test \<open>if agent_name\<close> takes the empty string for no name
  (\<open>submit_task_empty_name\<close>). When routing fails the dispatcher is left as it was, so
  nothing is enqueued. Otherwise the result is a new task object, pending, of the given
  type and payload, entered in the table of the chosen agent under its id, and the queue
  has grown at its end by the one pair of the name of that agent and the task.
\<close>

theorem submit_task_routing:
  assumes "distinct (map name (agents s))"
  shows "(fst (submit_task ty pl agent_name s) = None) =
           (case agent_name of
              Some (c # cs) \<Rightarrow> \<not> (\<exists>a \<in> set (agents s). name a = c # cs \<and> can_handle a ty)
            | _ \<Rightarrow> \<not> (\<exists>a \<in> set (agents s). can_handle a ty))
       \<and> (fst (submit_task ty pl agent_name s) = None \<longrightarrow>
            snd (submit_task ty pl agent_name s) = s)
       \<and> (\<forall>r. fst (submit_task ty pl agent_name s) = Some r \<longrightarrow>
            (\<exists>agent \<in> set (agents s).
               can_handle agent ty
               \<and> (case agent_name of
                     Some (c # cs) \<Rightarrow> name agent = c # cs
                   | _ \<Rightarrow> find_agent_for_task s ty = Some agent)
               \<and> r = next_ref s
               \<and> heap (snd (submit_task ty pl agent_name s)) r
                   = new_task (uuid4 s (uuids s)) (clock s (ticks s)) ty pl
               \<and> status (heap (snd (submit_task ty pl agent_name s)) r) = ''pending''
               \<and> task_queue (snd (submit_task ty pl agent_name s))
                   = task_queue s @ [(name agent, r)]
               \<and> (\<exists>agent'. get_agent (snd (submit_task ty pl agent_name s)) (name agent)
                               = Some agent'
                            \<and> tasks agent' = put_task (uuid4 s (uuids s)) r (tasks agent)
                            \<and> get_task agent' (uuid4 s (uuids s)) = Some r)))"
proof (cases "choose_agent s ty agent_name")
  case None
  then have "fst (submit_task ty pl agent_name s) = None"
    and "snd (submit_task ty pl agent_name s) = s"
    by (simp_all add: submit_task_def)
  moreover from None choose_agent_None [OF assms, of ty agent_name]
  have "(case agent_name of
              Some (c # cs) \<Rightarrow> \<not> (\<exists>a \<in> set (agents s). name a = c # cs \<and> can_handle a ty)
            | _ \<Rightarrow> \<not> (\<exists>a \<in> set (agents s). can_handle a ty))" by simp
  ultimately show ?thesis by simp
next
  case (Some agent)
  let ?s' = "snd (submit_task ty pl agent_name s)"
  let ?agent' = "agent\<lparr>tasks := put_task (uuid4 s (uuids s)) (next_ref s) (tasks agent)\<rparr>"
  have fst_eq: "fst (submit_task ty pl agent_name s) = Some (next_ref s)"
    using Some by (simp add: submit_task_def create_task_def Let_def)
  have s': "?s' = s\<lparr>agents := update_agent ?agent' (agents s),
                    heap := (heap s)(next_ref s :=
                              new_task (uuid4 s (uuids s)) (clock s (ticks s)) ty pl),
                    next_ref := Suc (next_ref s), ticks := Suc (ticks s),
                    uuids := Suc (uuids s),
                    task_queue := task_queue s @ [(name agent, next_ref s)]\<rparr>"
    using Some by (simp add: submit_task_def create_task_def Let_def)
  have ga: "get_agent ?s' (name agent) = Some ?agent'"
    using find_update_agent [of agent "agents s" ?agent'] choose_agent_Some [OF Some]
    by (simp add: s' get_agent_def)
  have gt: "get_task ?agent' (uuid4 s (uuids s)) = Some (next_ref s)"
    by (simp add: get_task_def map_of_put_task)
  from Some choose_agent_None [OF assms, of ty agent_name]
  have not_fail: "\<not> (case agent_name of
              Some (c # cs) \<Rightarrow> \<not> (\<exists>a \<in> set (agents s). name a = c # cs \<and> can_handle a ty)
            | _ \<Rightarrow> \<not> (\<exists>a \<in> set (agents s). can_handle a ty))" by simp
  have part3: "\<exists>agent \<in> set (agents s).
               can_handle agent ty
               \<and> (case agent_name of
                     Some (c # cs) \<Rightarrow> name agent = c # cs
                   | _ \<Rightarrow> find_agent_for_task s ty = Some agent)
               \<and> next_ref s = next_ref s
               \<and> heap ?s' (next_ref s)
                   = new_task (uuid4 s (uuids s)) (clock s (ticks s)) ty pl
               \<and> status (heap ?s' (next_ref s)) = ''pending''
               \<and> task_queue ?s' = task_queue s @ [(name agent, next_ref s)]
               \<and> (\<exists>agent'. get_agent ?s' (name agent) = Some agent'
                            \<and> tasks agent' = put_task (uuid4 s (uuids s)) (next_ref s) (tasks agent)
                            \<and> get_task agent' (uuid4 s (uuids s)) = Some (next_ref s))"
  proof (rule bexI [of _ agent])
    show "agent \<in> set (agents s)" using choose_agent_Some [OF Some] by simp
    have "heap ?s' (next_ref s) = new_task (uuid4 s (uuids s)) (clock s (ticks s)) ty pl"
      by (simp add: s')
    moreover have "task_queue ?s' = task_queue s @ [(name agent, next_ref s)]"
      by (simp add: s')
    moreover have "\<exists>agent'. get_agent ?s' (name agent) = Some agent'
                            \<and> tasks agent' = put_task (uuid4 s (uuids s)) (next_ref s) (tasks agent)
                            \<and> get_task agent' (uuid4 s (uuids s)) = Some (next_ref s)"
      using ga gt by (intro exI [of _ ?agent']) simp
    ultimately show "can_handle agent ty
               \<and> (case agent_name of
                     Some (c # cs) \<Rightarrow> name agent = c # cs
                   | _ \<Rightarrow> find_agent_for_task s ty = Some agent)
               \<and> next_ref s = next_ref s
               \<and> heap ?s' (next_ref s)
                   = new_task (uuid4 s (uuids s)) (clock s (ticks s)) ty pl
               \<and> status (heap ?s' (next_ref s)) = ''pending''
               \<and> task_queue ?s' = task_queue s @ [(name agent, next_ref s)]
               \<and> (\<exists>agent'. get_agent ?s' (name agent) = Some agent'
                            \<and> tasks agent' = put_task (uuid4 s (uuids s)) (next_ref s) (tasks agent)
                            \<and> get_task agent' (uuid4 s (uuids s)) = Some (next_ref s))"
      using choose_agent_Some [OF Some] by simp
  qed
  show ?thesis
    using not_fail part3 by (simp add: fst_eq)
qed

theorem submit_task_routing_witness:
  "distinct (map name (agents demo))
   \<and> fst (submit_task ''unknown'' (PyDict []) None demo) = None
   \<and> snd (submit_task ''unknown'' (PyDict []) None demo) = demo
   \<and> fst (submit_task ''echo'' (PyDict []) (Some ''w2'') demo) = None
   \<and> task_queue (snd (submit_task ''echo'' (PyDict []) (Some ''w2'') demo)) = task_queue demo
   \<and> fst (submit_task ''echo'' (PyDict []) (Some ''w9'') demo) = None
   \<and> fst (submit_task ''fail'' (PyDict []) (Some ''w2'') demo) = Some 0
   \<and> status (heap (snd (submit_task ''fail'' (PyDict []) (Some ''w2'') demo)) 0) = ''pending''
   \<and> task_queue (snd (submit_task ''fail'' (PyDict []) (Some ''w2'') demo)) = [(''w2'', 0)]"
proof -
  have d: "distinct (map name (agents demo))"
    by (simp add: demo_eq w1_def w2_def)
  have n1: "\<not> (\<exists>a \<in> set (agents demo). can_handle a ''unknown'')"
    and n2: "\<not> (\<exists>a \<in> set (agents demo). name a = ''w2'' \<and> can_handle a ''echo'')"
    and n3: "\<not> (\<exists>a \<in> set (agents demo). name a = ''w9'' \<and> can_handle a ''echo'')"
    and y4: "\<exists>a \<in> set (agents demo). name a = ''w2'' \<and> can_handle a ''fail''"
    by (simp_all add: demo_eq can_handle_def w1_def w2_def)
  from submit_task_routing [OF d, of "''unknown''" "PyDict []" None] n1
  have r1: "fst (submit_task ''unknown'' (PyDict []) None demo) = None
            \<and> snd (submit_task ''unknown'' (PyDict []) None demo) = demo"
    by simp
  from submit_task_routing [OF d, of "''echo''" "PyDict []" "Some ''w2''"] n2
  have r2: "fst (submit_task ''echo'' (PyDict []) (Some ''w2'') demo) = None
            \<and> snd (submit_task ''echo'' (PyDict []) (Some ''w2'') demo) = demo"
    by simp
  from submit_task_routing [OF d, of "''echo''" "PyDict []" "Some ''w9''"] n3
  have r3: "fst (submit_task ''echo'' (PyDict []) (Some ''w9'') demo) = None"
    by simp
  from submit_task_routing [OF d, of "''fail''" "PyDict []" "Some ''w2''"] y4
  have "fst (submit_task ''fail'' (PyDict []) (Some ''w2'') demo) \<noteq> None"
    by simp
  then obtain r where r: "fst (submit_task ''fail'' (PyDict []) (Some ''w2'') demo) = Some r"
    by blast
  with submit_task_routing [OF d, of "''fail''" "PyDict []" "Some ''w2''"]
  have r4: "r = 0
     \<and> status (heap (snd (submit_task ''fail'' (PyDict []) (Some ''w2'') demo)) r) = ''pending''
     \<and> task_queue (snd (submit_task ''fail'' (PyDict []) (Some ''w2'') demo)) = [(''w2'', r)]"
    by (auto simp add: demo_eq)
  show ?thesis using d r1 r2 r3 r r4 by auto
qed

text \<open>A task that has just been submitted is pending.\<close>

lemma submit_task_pending:
  "submit_task ty pl agent_name s = (Some r, s1) \<Longrightarrow> status (heap s1 r) = ''pending''"
  by (auto simp add: submit_task_def create_task_def Let_def split: option.splits)

lemma demo_cancel_eq:
  "demo_cancel = \<lparr>agents = [w1\<lparr>tasks := [(''uu'', 1)]\<rparr>, w3\<lparr>tasks := [(''u'', 0)]\<rparr>],
      task_queue = [(''w3'', 0), (''w1'', 1)], completed_tasks = [], failed_tasks = [],
      is_running = True,
      heap = (\<lambda>r. new_task [] 0 [] PyNone)
               (0 := new_task ''u'' 0 ''wait'' (PyDict []),
                1 := new_task ''uu'' 1 ''echo'' (PyDict [(''text'', PyStr ''hi'')])),
      next_ref = 2,
      clock = (\<lambda>n. n), ticks = 2, uuid4 = (\<lambda>n. replicate (Suc n) CHR ''u''), uuids = 2\<rparr>"
  by (simp add: demo_cancel_def process_tasks_def register_agent_def init_orchestrator_def
       submit_task_def choose_agent_def find_agent_for_task_def
       can_handle_def create_task_def Let_def w1_def w3_def numeral_2_eq_2)

lemma demo_cancel_iter:
  "worker_iter demo_cancel =
     (\<lparr>agents = [w1\<lparr>tasks := [(''uu'', 1)]\<rparr>, w3\<lparr>tasks := [(''u'', 0)]\<rparr>],
       task_queue = [(''w1'', 1)], completed_tasks = [], failed_tasks = [],
       is_running = True,
       heap = (\<lambda>r. new_task [] 0 [] PyNone)
                (1 := new_task ''uu'' 1 ''echo'' (PyDict [(''text'', PyStr ''hi'')]),
                 0 := (new_task ''u'' 0 ''wait'' (PyDict []))
                        \<lparr>status := ''running'', started_at := Some 2\<rparr>),
       next_ref = 2,
       clock = (\<lambda>n. n), ticks = 3, uuid4 = (\<lambda>n. replicate (Suc n) CHR ''u''), uuids = 2\<rparr>,
      Some (BaseExc ''CancelledError''))"
  by (simp add: demo_cancel_eq worker_iter_def get_agent_def process_task_def
        validate_task_def clock_reads_def can_handle_def w1_def w3_def Let_def new_task_def)

text \<open>
  C4, as the claim states it. The agent \<open>w3\<close> can handle \<open>wait\<close>, and its \<open>execute\<close>
  raises \<open>asyncio.CancelledError\<close>, which is not an \<open>Exception\<close>. Neither handler catches
  it: the pump loop ends with that exception, the task is left running, without an
  error and in neither ledger, and the task queued behind it stays pending.
\<close>

theorem worker_iter_cancelled_escapes:
  "is_running demo_cancel
   \<and> task_queue demo_cancel = [(''w3'', 0), (''w1'', 1)]
   \<and> can_handle w3 (task_type (heap demo_cancel 0))
   \<and> snd (worker_iter demo_cancel) = Some (BaseExc ''CancelledError'')
   \<and> status (heap (fst (worker_iter demo_cancel)) 0) = ''running''
   \<and> error (heap (fst (worker_iter demo_cancel)) 0) = None
   \<and> failed_tasks (fst (worker_iter demo_cancel)) = []
   \<and> completed_tasks (fst (worker_iter demo_cancel)) = []
   \<and> worker_loop 5 demo_cancel = worker_iter demo_cancel
   \<and> status (heap (fst (worker_loop 5 demo_cancel)) 1) = ''pending''"
proof -
  have a: "is_running demo_cancel" "task_queue demo_cancel = [(''w3'', 0), (''w1'', 1)]"
    "can_handle w3 (task_type (heap demo_cancel 0))"
    by (simp_all add: demo_cancel_eq can_handle_def w3_def)
  have "worker_loop (Suc 4) demo_cancel = worker_iter demo_cancel"
    using a(1) by (simp only: worker_loop.simps if_True demo_cancel_iter) simp
  then have b: "worker_loop 5 demo_cancel = worker_iter demo_cancel"
    by simp
  show ?thesis
    unfolding b using a by (simp add: demo_cancel_iter)
qed

text \<open>
  C4, amended. When the pump loop takes from the queue a task that its agent can handle
  and on which \<open>execute\<close> raises an instance of \<open>Exception\<close>, no exception leaves the
  turn; the task ends with status \<open>failed\<close> and the message of the exception as its
  \<open>error\<close>; the task is appended to the failed ledger, the completed ledger is unchanged,
  and the loop, still running, goes on with the rest of the queue.
\<close>

theorem worker_iter_execute_raises:
  assumes "is_running s"
      and "task_queue s = (agent_name, r) # rest"
      and "get_agent s agent_name = Some agent"
      and "can_handle agent (task_type (heap s r))"
      and "execute agent ((heap s r)\<lparr>status := ''running'',
                                     started_at := Some (clock s (ticks s))\<rparr>)
             = Raised (Exc msg) t"
  shows "worker_iter s = (pump s, None)
       \<and> status (heap (pump s) r) = ''failed''
       \<and> error (heap (pump s) r) = Some msg
       \<and> failed_tasks (pump s) = failed_tasks s @ [r]
       \<and> completed_tasks (pump s) = completed_tasks s
       \<and> task_queue (pump s) = rest
       \<and> is_running (pump s)
       \<and> worker_loop (Suc n) s = worker_loop n (pump s)"
proof -
  have pt: "process_task agent (clock s (ticks s)) (clock s (Suc (ticks s))) (heap s r)
            = (t\<lparr>status := ''failed'', error := Some msg,
                 completed_at := Some (clock s (Suc (ticks s)))\<rparr>, None)"
    using assms(4,5) by (rule process_task_raised)
  have cr: "clock_reads agent (clock s (ticks s)) (heap s r) = 2"
    using assms(4,5) by (simp add: clock_reads_def)
  have wi: "worker_iter s =
        (s\<lparr>task_queue := rest,
           heap := (heap s)(r := t\<lparr>status := ''failed'', error := Some msg,
                                   completed_at := Some (clock s (Suc (ticks s)))\<rparr>),
           ticks := ticks s + 2,
           failed_tasks := failed_tasks s @ [r]\<rparr>, None)"
    using assms(2,3) pt cr by (simp add: worker_iter_def Let_def)
  show ?thesis using assms(1) by (simp add: pump_def wi)
qed

theorem worker_iter_execute_raises_witness:
  "is_running demo_queue
   \<and> task_queue demo_queue = [(''w2'', 0), (''w1'', 1)]
   \<and> worker_iter demo_queue = (pump demo_queue, None)
   \<and> status (heap (pump demo_queue) 0) = ''failed''
   \<and> error (heap (pump demo_queue) 0) = Some ''boom''
   \<and> failed_tasks (pump demo_queue) = [0]
   \<and> completed_tasks (pump demo_queue) = []
   \<and> task_queue (pump demo_queue) = [(''w1'', 1)]
   \<and> worker_loop 2 demo_queue = worker_loop 1 (pump demo_queue)"
proof -
  have h1: "is_running demo_queue"
    and h2: "task_queue demo_queue = (''w2'', 0) # [(''w1'', 1)]"
    and h3: "get_agent demo_queue ''w2'' = Some (w2\<lparr>tasks := [(''u'', 0)]\<rparr>)"
    and h4: "can_handle (w2\<lparr>tasks := [(''u'', 0)]\<rparr>) (task_type (heap demo_queue 0))"
    and h5: "execute (w2\<lparr>tasks := [(''u'', 0)]\<rparr>)
               ((heap demo_queue 0)\<lparr>status := ''running'',
                    started_at := Some (clock demo_queue (ticks demo_queue))\<rparr>)
             = Raised (Exc ''boom'') ((new_task ''u'' 0 ''fail'' (PyDict []))
                                        \<lparr>status := ''running'', started_at := Some 2\<rparr>)"
    by (simp_all add: demo_queue_eq get_agent_def w1_def w2_def can_handle_def)
  have h6: "failed_tasks demo_queue = []" "completed_tasks demo_queue = []"
    by (simp_all add: demo_queue_eq)
  from worker_iter_execute_raises [OF h1 h2 h3 h4 h5, of "Suc 0"]
  show ?thesis
    by (simp add: h1 h2 h6 numeral_2_eq_2)
qed

text \<open>After the failed task the loop completes the task queued behind it.\<close>

lemma demo_queue_loop:
  "worker_loop 2 demo_queue = (pump (pump demo_queue), None)"
  "failed_tasks (pump (pump demo_queue)) = [0]"
  "completed_tasks (pump (pump demo_queue)) = [1]"
proof -
  have a: "worker_iter demo_queue = (pump demo_queue, None)"
    by (simp add: pump_def demo_queue_eq worker_iter_def get_agent_def process_task_def
        validate_task_def clock_reads_def can_handle_def w1_def w2_def Let_def new_task_def)
  have r: "is_running demo_queue" by (simp add: demo_queue_eq)
  have b: "is_running (pump demo_queue)"
    by (simp add: pump_def demo_queue_eq worker_iter_def get_agent_def process_task_def
        validate_task_def clock_reads_def can_handle_def w1_def w2_def Let_def new_task_def)
  have c: "worker_iter (pump demo_queue) = (pump (pump demo_queue), None)"
    by (simp add: pump_def demo_queue_eq worker_iter_def get_agent_def process_task_def
        validate_task_def clock_reads_def can_handle_def w1_def w2_def echo_execute_def
        Let_def new_task_def)
  show "worker_loop 2 demo_queue = (pump (pump demo_queue), None)"
    using a r b c by (simp add: numeral_2_eq_2)
  show "failed_tasks (pump (pump demo_queue)) = [0]"
    "completed_tasks (pump (pump demo_queue)) = [1]"
    by (simp_all add: demo_queue_iter2)
qed

section \<open>Properties of the float arithmetic\<close>

declare bit_length.simps [simp del]

text \<open>Rounding to an integer moves a fraction by at most one half.\<close>

lemma round_half_even_bound:
  assumes "0 < den"
  shows "\<bar>of_nat (round_half_even num den) - (of_nat num / of_nat den :: rat)\<bar> \<le> 1 / 2"
proof -
  define q r where "q = num div den" and "r = num mod den"
  have num: "num = q * den + r" and r: "r < den"
    using assms by (simp_all add: q_def r_def)
  have x: "(of_nat num / of_nat den :: rat) = of_nat q + of_nat r / of_nat den"
    using assms by (simp add: num field_simps)
  have r2: "(of_nat r / of_nat den :: rat) < 1" "(0::rat) \<le> of_nat r / of_nat den"
    using assms r by simp_all
  consider "2 * r < den" | "den < 2 * r" | "2 * r = den" by linarith
  then show ?thesis
  proof cases
    case 1
    then have "(of_nat r / of_nat den :: rat) < 1 / 2"
      using assms by (simp add: field_simps)
    with 1 r2 show ?thesis
      by (simp add: round_half_even_def Let_def q_def [symmetric] r_def [symmetric] x)
  next
    case 2
    then have "(of_nat r / of_nat den :: rat) > 1 / 2"
      using assms by (simp add: field_simps)
    with 2 r2 show ?thesis
      by (simp add: round_half_even_def Let_def q_def [symmetric] r_def [symmetric] x)
  next
    case 3
    then have "(of_nat r / of_nat den :: rat) = 1 / 2"
      using assms by (simp add: field_simps)
    with 3 show ?thesis
      by (simp add: round_half_even_def Let_def q_def [symmetric] r_def [symmetric] x)
  qed
qed

lemma scale_down:
  fixes m x :: rat
  assumes "\<bar>m - x * 2 ^ k\<bar> \<le> 1 / 2"
  shows "\<bar>m / 2 ^ k - x\<bar> \<le> (1 / 2 ^ k) / 2"
proof -
  have pos: "(0::rat) < 2 ^ k" by simp
  have "m - x * 2 ^ k = (m / 2 ^ k - x) * 2 ^ k"
    by (simp add: algebra_simps)
  then have "\<bar>m - x * 2 ^ k\<bar> = \<bar>m / 2 ^ k - x\<bar> * 2 ^ k"
    by (simp only: abs_mult) simp
  with assms have "\<bar>m / 2 ^ k - x\<bar> * 2 ^ k \<le> 1 / 2" by simp
  then have "\<bar>m / 2 ^ k - x\<bar> \<le> (1 / 2) / 2 ^ k"
    using pos by (simp only: pos_le_divide_eq)
  then show ?thesis by simp
qed

lemma scale_up:
  fixes m x :: rat
  assumes "\<bar>m - x / 2 ^ k\<bar> \<le> 1 / 2"
  shows "\<bar>m * 2 ^ k - x\<bar> \<le> 2 ^ k / 2"
proof -
  have pos: "(0::rat) < 2 ^ k" by simp
  have "m * 2 ^ k - x = (m - x / 2 ^ k) * 2 ^ k"
    by (simp add: algebra_simps)
  then have "\<bar>m * 2 ^ k - x\<bar> = \<bar>m - x / 2 ^ k\<bar> * 2 ^ k"
    by (simp only: abs_mult) simp
  also have "\<dots> \<le> (1 / 2) * 2 ^ k"
    using assms pos by (simp only: mult_right_mono less_imp_le)
  finally show ?thesis by simp
qed

text \<open>
  \<open>to_double\<close> is within half a unit in the last place of the exact quotient.
\<close>

lemma to_double_half_ulp:
  assumes "0 < num" and "0 < den" and "to_double num den = Dbl m ex"
  shows "\<bar>float_value (Dbl m ex) - (of_nat num / of_nat den :: rat)\<bar>
           \<le> float_value (Dbl 1 ex) / 2"
proof -
  define sh where "sh = 52 - (let e0 = int (bit_length num) - int (bit_length den)
                              in if den * 2 ^ nat e0 \<le> num * 2 ^ nat (- e0) then e0 else e0 - 1)"
  have "to_double num den =
              Dbl (if 0 \<le> sh then round_half_even (num * 2 ^ nat sh) den
                   else round_half_even num (den * 2 ^ nat (- sh))) (- sh)"
    using assms(1) by (simp add: to_double_def sh_def Let_def)
  with assms(3) have td: "Dbl m ex =
              Dbl (if 0 \<le> sh then round_half_even (num * 2 ^ nat sh) den
                   else round_half_even num (den * 2 ^ nat (- sh))) (- sh)"
    by simp
  show ?thesis
  proof (cases "0 \<le> sh")
    case True
    define k where "k = nat sh"
    from td True have m: "m = round_half_even (num * 2 ^ k) den" and ex: "ex = - int k"
      by (simp_all add: k_def)
    have "\<bar>of_nat m - (of_nat (num * 2 ^ k) / of_nat den :: rat)\<bar> \<le> 1 / 2"
      unfolding m by (rule round_half_even_bound [OF assms(2)])
    then have "\<bar>of_nat m - (of_nat num / of_nat den :: rat) * 2 ^ k\<bar> \<le> 1 / 2"
      by simp
    then have b: "\<bar>of_nat m / 2 ^ k - (of_nat num / of_nat den :: rat)\<bar> \<le> (1 / 2 ^ k) / 2"
      by (rule scale_down)
    show ?thesis
    proof (cases "k = 0")
      case True
      with b show ?thesis by (simp add: ex)
    next
      case False
      with b show ?thesis by (simp add: ex)
    qed
  next
    case False
    define k where "k = nat (- sh)"
    from td False have m: "m = round_half_even num (den * 2 ^ k)" and ex: "ex = int k"
      and k: "0 < k"
      by (simp_all add: k_def)
    have "0 < den * 2 ^ k" using assms(2) by simp
    then have "\<bar>of_nat m - (of_nat num / of_nat (den * 2 ^ k) :: rat)\<bar> \<le> 1 / 2"
      unfolding m by (rule round_half_even_bound)
    then have "\<bar>of_nat m - (of_nat num / of_nat den :: rat) / 2 ^ k\<bar> \<le> 1 / 2"
      by simp
    then have "\<bar>of_nat m * 2 ^ k - (of_nat num / of_nat den :: rat)\<bar> \<le> 2 ^ k / 2"
      by (rule scale_up)
    then show ?thesis by (simp add: ex)
  qed
qed

text \<open>\<open>bit_length n\<close> is the number of binary digits of \<open>n\<close>.\<close>

lemma bit_length_bounds:
  "0 < n \<Longrightarrow> 2 ^ (bit_length n - 1) \<le> n \<and> n < 2 ^ bit_length n"
proof (induction n rule: bit_length.induct)
  case (1 n)
  show ?case
  proof (cases "n div 2 = 0")
    case True
    with "1.prems" have "n = 1" by (simp add: div_eq_0_iff) 
    then show ?thesis by (simp add: bit_length.simps)
  next
    case False
    with "1.prems" "1.IH" have ih: "2 ^ (bit_length (n div 2) - 1) \<le> n div 2"
      "n div 2 < 2 ^ bit_length (n div 2)" by simp_all
    have bl: "bit_length n = Suc (bit_length (n div 2))"
      using "1.prems" by (subst bit_length.simps) simp
    have pos: "0 < bit_length (n div 2)"
      using False by (subst bit_length.simps) simp
    then have "(2::nat) ^ bit_length (n div 2) = 2 * 2 ^ (bit_length (n div 2) - 1)"
      by (cases "bit_length (n div 2)") simp_all
    with ih(1) have "2 ^ bit_length (n div 2) \<le> 2 * (n div 2)" by simp
    also have "\<dots> \<le> n" by simp
    finally have lo: "2 ^ (bit_length n - 1) \<le> n" by (simp add: bl)
    from ih(2) have "2 * (n div 2) + 2 \<le> 2 * 2 ^ bit_length (n div 2)" by simp
    moreover have "n < 2 * (n div 2) + 2" by presburger
    ultimately have "n < 2 ^ bit_length n" by (simp add: bl)
    with lo show ?thesis by simp
  qed
qed

lemma exponent_test:
  assumes "0 < den"
  shows "(den * 2 ^ nat e \<le> num * 2 ^ nat (- e))
           = ((2::rat) powi e \<le> of_nat num / of_nat den)"
proof (cases "0 \<le> e")
  case True
  then obtain k where e: "e = int k" by (metis nonneg_int_cases)
  have dpos: "(0::rat) < of_nat den" using assms by simp
  have "(den * 2 ^ k \<le> num) = ((of_nat (den * 2 ^ k) :: rat) \<le> of_nat num)"
    by (simp only: of_nat_le_iff)
  also have "\<dots> = ((2::rat) ^ k * of_nat den \<le> of_nat num)"
    by (simp add: mult.commute)
  also have "\<dots> = ((2::rat) ^ k \<le> of_nat num / of_nat den)"
    using dpos by (simp only: pos_le_divide_eq)
  finally show ?thesis by (simp add: e)
next
  case False
  then obtain k where e: "e = - int k" by (metis nonpos_int_cases linear)
  have dpos: "(0::rat) < of_nat den" using assms by simp
  have kpos: "(0::rat) < 2 ^ k" by simp
  have "(den \<le> num * 2 ^ k) = ((of_nat den :: rat) \<le> of_nat (num * 2 ^ k))"
    by (simp only: of_nat_le_iff)
  also have "\<dots> = ((of_nat den :: rat) \<le> of_nat num * 2 ^ k)"
    by simp
  also have "\<dots> = ((of_nat den :: rat) / 2 ^ k \<le> of_nat num)"
    using kpos by (simp only: pos_divide_le_eq)
  also have "\<dots> = (1 / 2 ^ k * (of_nat den :: rat) \<le> of_nat num)"
    by simp
  also have "\<dots> = (1 / (2::rat) ^ k \<le> of_nat num / of_nat den)"
    using dpos by (simp only: pos_le_divide_eq)
  finally show ?thesis by (simp add: e power_int_minus_divide)
qed

lemma pow2_split: "(2::rat) powi (a + b) = 2 powi a * 2 powi b"
  by (rule power_int_add) simp

lemma of_nat_pow2_lower:
  assumes "0 < n"
  shows "(2::rat) powi (int (bit_length n) - 1) \<le> of_nat n"
proof -
  from bit_length_bounds [OF assms] have "2 ^ (bit_length n - 1) \<le> n" by simp
  then have "(of_nat (2 ^ (bit_length n - 1)) :: rat) \<le> of_nat n"
    by (simp only: of_nat_le_iff)
  then have a: "(2::rat) ^ (bit_length n - 1) \<le> of_nat n" by simp
  have "0 < bit_length n" using assms by (subst bit_length.simps) simp
  then have "int (bit_length n) - 1 = int (bit_length n - 1)" by simp
  then have "(2::rat) powi (int (bit_length n) - 1) = 2 ^ (bit_length n - 1)"
    by (simp only: power_int_of_nat)
  with a show ?thesis by simp
qed

lemma of_nat_pow2_upper:
  assumes "0 < n"
  shows "(of_nat n :: rat) < 2 powi int (bit_length n)"
proof -
  from bit_length_bounds [OF assms] have "n < 2 ^ bit_length n" by simp
  then have "(of_nat n :: rat) < of_nat (2 ^ bit_length n)"
    by (simp only: of_nat_less_iff)
  then show ?thesis by simp
qed

lemma quotient_between:
  assumes "0 < num" and "0 < den"
  shows "(2::rat) powi (int (bit_length num) - int (bit_length den) - 1)
           \<le> of_nat num / of_nat den"
    and "(of_nat num / of_nat den :: rat)
           < 2 powi (int (bit_length num) - int (bit_length den) + 1)"
proof -
  let ?bn = "int (bit_length num)" and ?bd = "int (bit_length den)"
  have dpos: "(0::rat) < of_nat den" using assms(2) by simp
  have p: "(0::rat) \<le> 2 powi i" for i by (simp add: less_imp_le)
  have "(2::rat) powi (?bn - ?bd - 1) * of_nat den \<le> 2 powi (?bn - ?bd - 1) * 2 powi ?bd"
    using of_nat_pow2_upper [OF assms(2)] p by (intro mult_left_mono) (simp_all add: less_imp_le)
  also have "\<dots> = 2 powi ((?bn - ?bd - 1) + ?bd)"
    by (rule pow2_split [symmetric])
  also have "(?bn - ?bd - 1) + ?bd = ?bn - 1" by simp
  also have "(2::rat) powi (?bn - 1) \<le> of_nat num"
    by (rule of_nat_pow2_lower [OF assms(1)])
  finally show "(2::rat) powi (?bn - ?bd - 1) \<le> of_nat num / of_nat den"
    using dpos by (simp only: pos_le_divide_eq)
  have "(of_nat num :: rat) < 2 powi ?bn"
    by (rule of_nat_pow2_upper [OF assms(1)])
  also have "?bn = (?bn - ?bd + 1) + (?bd - 1)" by simp
  also have "(2::rat) powi ((?bn - ?bd + 1) + (?bd - 1)) = 2 powi (?bn - ?bd + 1) * 2 powi (?bd - 1)"
    by (rule pow2_split)
  also have "\<dots> \<le> 2 powi (?bn - ?bd + 1) * of_nat den"
    using of_nat_pow2_lower [OF assms(2)] p by (intro mult_left_mono) simp_all
  finally show "(of_nat num / of_nat den :: rat) < 2 powi (?bn - ?bd + 1)"
    using dpos by (simp only: pos_divide_less_eq)
qed

text \<open>The mantissa of \<open>to_double\<close> has 53 bits (or is the carry \<open>2^53\<close>).\<close>

lemma to_double_mantissa:
  assumes "0 < num" and "0 < den" and "to_double num den = Dbl m ex"
  shows "2 ^ 52 \<le> m \<and> m \<le> 2 ^ 53"
proof -
  let ?x = "of_nat num / of_nat den :: rat"
  define e0 where "e0 = int (bit_length num) - int (bit_length den)"
  define e where "e = (if den * 2 ^ nat e0 \<le> num * 2 ^ nat (- e0) then e0 else e0 - 1)"
  define sh where "sh = 52 - e"
  define y where "y = ?x * 2 powi sh"
  have "to_double num den =
              Dbl (if 0 \<le> sh then round_half_even (num * 2 ^ nat sh) den
                   else round_half_even num (den * 2 ^ nat (- sh))) (- sh)"
    using assms(1) by (simp add: to_double_def sh_def e_def e0_def Let_def)
  with assms(3) have m: "m = (if 0 \<le> sh then round_half_even (num * 2 ^ nat sh) den
                   else round_half_even num (den * 2 ^ nat (- sh)))"
    by simp
  have ebounds: "2 powi e \<le> ?x \<and> ?x < 2 powi (e + 1)"
  proof (cases "den * 2 ^ nat e0 \<le> num * 2 ^ nat (- e0)")
    case True
    then have "e = e0" by (simp add: e_def)
    moreover from True have "2 powi e0 \<le> ?x"
      by (simp only: exponent_test [OF assms(2)])
    moreover have "?x < 2 powi (e0 + 1)"
      unfolding e0_def by (rule quotient_between(2) [OF assms(1,2)])
    ultimately show ?thesis by simp
  next
    case False
    then have "e = e0 - 1" by (simp add: e_def)
    moreover from False have "?x < 2 powi e0"
      by (simp only: exponent_test [OF assms(2)] not_le)
    moreover have "2 powi (e0 - 1) \<le> ?x"
      unfolding e0_def by (rule quotient_between(1) [OF assms(1,2)])
    ultimately show ?thesis by simp
  qed
  have shpos: "(0::rat) < 2 powi sh" by simp
  have "(2::rat) powi (e + sh) = 2 powi e * 2 powi sh" by (rule pow2_split)
  also have "\<dots> \<le> y"
    unfolding y_def using ebounds shpos by (intro mult_right_mono) (simp_all add: less_imp_le)
  finally have ylo: "(2::rat) powi 52 \<le> y" by (simp add: sh_def)
  have "y < 2 powi (e + 1) * 2 powi sh"
    unfolding y_def using ebounds shpos by (intro mult_strict_right_mono) simp_all
  also have "\<dots> = 2 powi ((e + 1) + sh)" by (rule pow2_split [symmetric])
  finally have yhi: "y < (2::rat) powi 53" by (simp add: sh_def)
  have mb: "\<bar>of_nat m - y\<bar> \<le> 1 / 2"
  proof (cases "0 \<le> sh")
    case True
    then obtain k where k: "sh = int k" by (metis nonneg_int_cases)
    with m have "m = round_half_even (num * 2 ^ k) den" by simp
    then have "\<bar>of_nat m - (of_nat (num * 2 ^ k) / of_nat den :: rat)\<bar> \<le> 1 / 2"
      by (simp only: round_half_even_bound [OF assms(2)])
    moreover have "(of_nat (num * 2 ^ k) / of_nat den :: rat) = y"
      by (simp add: y_def k)
    ultimately show ?thesis by simp
  next
    case False
    then obtain k where k: "sh = - int k" by (metis nonpos_int_cases linear)
    with False m have "m = round_half_even num (den * 2 ^ k)" by simp
    moreover have "0 < den * 2 ^ k" using assms(2) by simp
    ultimately have "\<bar>of_nat m - (of_nat num / of_nat (den * 2 ^ k) :: rat)\<bar> \<le> 1 / 2"
      by (simp only: round_half_even_bound)
    moreover have "(of_nat num / of_nat (den * 2 ^ k) :: rat) = y"
      by (simp add: y_def k power_int_minus_divide)
    ultimately show ?thesis by simp
  qed
  have p52: "(2::rat) powi 52 = of_nat (2 ^ 52)" and p53: "(2::rat) powi 53 = of_nat (2 ^ 53)"
    by simp_all
  from mb ylo have "(of_nat (2 ^ 52) :: rat) < of_nat m + 1"
    unfolding p52 by linarith
  then have "(of_nat (2 ^ 52) :: rat) < of_nat (m + 1)" by simp
  then have lo: "2 ^ 52 < m + 1" by (simp only: of_nat_less_iff)
  from mb yhi have "(of_nat m :: rat) < of_nat (2 ^ 53) + 1"
    unfolding p53 by linarith
  then have "(of_nat m :: rat) < of_nat (2 ^ 53 + 1)" by simp
  then have hi: "m < 2 ^ 53 + 1" by (simp only: of_nat_less_iff)
  from lo hi show ?thesis by simp
qed

text \<open>
  The float arithmetic on the values of the examples below, and on two quotients whose
  percentage is not the exact one: \<open>1 / 3 * 100\<close> is \<open>33.33333333333333\<close>, below one
  hundred thirds, and \<open>11 / 20 * 100\<close> is \<open>55.00000000000001\<close>, above fifty-five.
\<close>

lemma float_examples:
  "py_truediv 1 2 = Dbl 4503599627370496 (- 53)"
  "py_float_mul (Dbl 4503599627370496 (- 53)) 100 = Dbl 7036874417766400 (- 47)"
  "py_float_mul (py_truediv 1 3) 100 = Dbl 4691249611844266 (- 47)"
  "py_float_mul (py_truediv 11 20) 100 = Dbl 7740561859543041 (- 47)"
  by (simp_all add: py_truediv_def to_double_def round_half_even_def bit_length.simps Let_def)

lemma float_example_values:
  "float_value (Dbl 4503599627370496 (- 53)) = 1 / 2"
  "float_value (Dbl 7036874417766400 (- 47)) = 50"
  "float_value (Dbl 4691249611844266 (- 47)) < 100 / 3"
  "float_value (Dbl 7740561859543041 (- 47)) > 55"
  by simp_all

section \<open>Properties of the status report\<close>

text \<open>
  C7, as the claim states it. With one completed and one failed task the claim's
  \<open>successRate\<close> is the float one half; \<open>get_system_status\<close> reports the float fifty.
\<close>

theorem success_rate_is_percentage:
  "total_tasks_processed (get_system_status (pump (pump demo_queue))) = 2
   \<and> length (completed_tasks (pump (pump demo_queue))) = 1
   \<and> success_rate (get_system_status (pump (pump demo_queue)))
       = FloatNum (Dbl 7036874417766400 (- 47))
   \<and> num_value (success_rate (get_system_status (pump (pump demo_queue)))) = 50
   \<and> float_value (py_truediv (length (completed_tasks (pump (pump demo_queue))))
                     (total_tasks_processed (get_system_status (pump (pump demo_queue)))))
       = 1 / 2
   \<and> success_rate (get_system_status (pump (pump demo_queue)))
       \<noteq> FloatNum (py_truediv (length (completed_tasks (pump (pump demo_queue))))
                     (total_tasks_processed (get_system_status (pump (pump demo_queue)))))"
proof -
  have c: "length (completed_tasks (pump (pump demo_queue))) = 1"
    and f: "length (failed_tasks (pump (pump demo_queue))) = 1"
    by (simp_all add: demo_queue_iter2)
  have total: "total_tasks_processed (get_system_status (pump (pump demo_queue))) = 2"
    by (simp add: get_system_status_def Let_def c f)
  have rate: "success_rate (get_system_status (pump (pump demo_queue)))
                = FloatNum (Dbl 7036874417766400 (- 47))"
    by (simp add: get_system_status_def Let_def c f float_examples
             del: py_float_mul.simps One_nat_def)
  show ?thesis
    by (simp add: total rate c float_examples float_example_values
             del: float_value.simps py_float_mul.simps One_nat_def)
qed

text \<open>
  C7, amended. \<open>get_system_status\<close> reports the sum of the lengths of the two ledgers,
  the success rate as a percentage, which is the int zero when both ledgers are empty and
  otherwise the float that Python computes for \<open>completed / total * 100\<close> (the correctly
  rounded quotient, times one hundred, correctly rounded again), and the current length
  of the queue.
\<close>

theorem get_system_status_metrics:
  "total_tasks_processed (get_system_status s)
     = length (completed_tasks s) + length (failed_tasks s)
   \<and> success_rate (get_system_status s)
       = (if length (completed_tasks s) + length (failed_tasks s) = 0 then IntNum 0
          else FloatNum (py_float_mul
                           (py_truediv (length (completed_tasks s))
                              (length (completed_tasks s) + length (failed_tasks s))) 100))
   \<and> queue_size (get_system_status s) = length (task_queue s)"
  by (simp add: get_system_status_def Let_def)

theorem get_system_status_metrics_witness:
  "success_rate (get_system_status demo) = IntNum 0
   \<and> total_tasks_processed (get_system_status demo) = 0
   \<and> queue_size (get_system_status demo_queue) = 2
   \<and> success_rate (get_system_status (pump (pump demo_queue)))
       = FloatNum (Dbl 7036874417766400 (- 47))
   \<and> num_value (success_rate (get_system_status (pump (pump demo_queue)))) = 50"
proof -
  have d: "completed_tasks demo = []" "failed_tasks demo = []"
    by (simp_all add: demo_eq)
  have q: "task_queue demo_queue = [(''w2'', 0), (''w1'', 1)]"
    by (simp add: demo_queue_eq)
  have w: "length (completed_tasks (pump (pump demo_queue))) = 1"
    "length (failed_tasks (pump (pump demo_queue))) = 1"
    by (simp_all add: demo_queue_iter2)
  show ?thesis
    using get_system_status_metrics [of demo] get_system_status_metrics [of demo_queue]
      get_system_status_metrics [of "pump (pump demo_queue)"]
    by (simp add: d q w float_examples float_example_values
             del: float_value.simps py_float_mul.simps One_nat_def)
qed

section \<open>Properties of the workflow runner\<close>

text \<open>
  C6. A step without \<open>agent\<close> is routed by capability and its task is submitted.
  The task is pending, so the polling loop is entered; after the first sleep the re-read
  yields \<open>None\<close> because no agent name was given, and the next test of the loop
  condition raises \<open>AttributeError\<close>, whatever the pump loops did meanwhile. The
  workflow returns no result sequence.
\<close>

theorem execute_workflow_routed_step_raises:
  "execute_workflow (Suc (Suc fuel)) sleep [echo_step None] demo
     = Some (Inl (AttributeError ''status''))"
  by (simp add: execute_workflow_def workflow_step_def echo_step_def submit_task_def
        choose_agent_def find_agent_for_task_def create_task_def can_handle_def Let_def
        refetch_def demo_eq w1_def)

text \<open>
  The same for every dispatcher and every step that gives no agent name and whose
  submission succeeds.
\<close>

lemma workflow_step_routed_raises:
  assumes "step_type step = Some ty"
      and "step_agent step = None \<or> step_agent step = Some []"
      and "submit_task ty (case step_payload step of None \<Rightarrow> PyDict [] | Some p \<Rightarrow> p)
             (step_agent step) s = (Some r, s1)"
  shows "workflow_step (Suc (Suc fuel)) sleep step results s
           = Some (Inl (AttributeError ''status''))"
proof -
  have "status (heap s1 r) = ''pending''"
    using assms(3) by (rule submit_task_pending)
  moreover have "refetch s' (step_agent step) tid = Inr None" for s' tid
    using assms(2) by (auto simp add: refetch_def)
  ultimately have "wait_for_task (Suc (Suc fuel)) sleep (step_agent step) (Some r) s1
                     = Some (Inl (AttributeError ''status''))"
    by (simp add: Let_def)
  with assms(1,3) show ?thesis
    by (simp add: workflow_step_def Let_def)
qed

text \<open>When the polling loop ends normally, the task has left pending and running.\<close>

lemma wait_for_task_left:
  "wait_for_task fuel sleep agent_name task s = Some (Inr (r, s')) \<Longrightarrow>
     status (heap s' r) \<noteq> ''pending'' \<and> status (heap s' r) \<noteq> ''running''"
proof (induction fuel arbitrary: task s)
  case 0
  then show ?case by simp
next
  case (Suc fuel)
  then show ?case
    by (auto simp add: Let_def split: option.splits if_splits sum.splits)
qed

text \<open>
  The runner only ever appends to its results, at most one task for each step, so the
  results are in the order of the steps.
\<close>

lemma workflow_step_results:
  "workflow_step fuel sleep step results s = Some (Inr (brk, results', s')) \<Longrightarrow>
     results' = results \<or> (\<exists>r. results' = results @ [r])"
  by (auto simp add: workflow_step_def Let_def split: option.splits prod.splits sum.splits)

lemma execute_workflow_loop_extends:
  "execute_workflow_loop fuel sleep steps results s = Some (Inr (res, s')) \<Longrightarrow>
     \<exists>new. res = results @ new \<and> length new \<le> length steps"
proof (induction steps arbitrary: results s)
  case Nil
  then show ?case by simp
next
  case (Cons step steps)
  from Cons.prems obtain brk results1 s1 where
    st: "workflow_step fuel sleep step results s = Some (Inr (brk, results1, s1))"
    by (auto split: option.splits sum.splits)
  from workflow_step_results [OF st]
  obtain one where one: "results1 = results @ one" "length one \<le> 1"
    by (metis append_Nil2 le_numeral_extra(4) length_Cons list.size(3) zero_le One_nat_def)
  show ?case
  proof (cases brk)
    case True
    with Cons.prems st one show ?thesis by auto
  next
    case False
    with Cons.prems st have "execute_workflow_loop fuel sleep steps results1 s1 = Some (Inr (res, s'))"
      by simp
    from Cons.IH [OF this] obtain new where "res = results1 @ new" "length new \<le> length steps"
      by blast
    with one show ?thesis
      by (intro exI [of _ "one @ new"]) simp
  qed
qed

text \<open>
  A step that names its agent is re-read from the table of that agent. When its task has
  been submitted and polled to its end, the runner stops there and returns the results
  collected so far, that task included, if the task failed and the step's
  \<open>continue_on_failure\<close> is false; in every other case, in particular when the task
  failed and the flag is absent, it appends the task and goes on with the remaining steps.
\<close>

lemma execute_workflow_loop_polled_step:
  assumes "step_type step = Some ty"
      and "submit_task ty (case step_payload step of None \<Rightarrow> PyDict [] | Some p \<Rightarrow> p)
             (step_agent step) s = (Some r, s1)"
      and "wait_for_task fuel sleep (step_agent step) (Some r) s1 = Some (Inr (r', s2))"
  shows "execute_workflow_loop fuel sleep (step # rest) results s =
           (if status (heap s2 r') = ''failed'' \<and> continue_on_failure step = Some False
            then Some (Inr (results @ [r'], s2))
            else execute_workflow_loop fuel sleep rest (results @ [r']) s2)"
  using assms
  by (cases "continue_on_failure step") (auto simp add: workflow_step_def Let_def)

lemma demo_submit_fail:
  "submit_task ''fail'' (PyDict []) (Some ''w2'') demo = (Some 0, demo_submitted)"
  by (simp add: demo_submitted_def submit_task_def choose_agent_def get_agent_def
        can_handle_def create_task_def Let_def demo_eq w1_def w2_def)

lemma demo_submitted_eq:
  "demo_submitted =
      \<lparr>agents = [w1, w2\<lparr>tasks := [(''u'', 0)]\<rparr>],
       task_queue = [(''w2'', 0)], completed_tasks = [], failed_tasks = [],
       is_running = True,
       heap = (\<lambda>r. new_task [] 0 [] PyNone)(0 := new_task ''u'' 0 ''fail'' (PyDict [])),
       next_ref = 1, clock = (\<lambda>n. n), ticks = 1,
       uuid4 = (\<lambda>n. replicate (Suc n) CHR ''u''), uuids = 1\<rparr>"
  by (simp add: demo_submitted_def demo_eq submit_task_def choose_agent_def get_agent_def
       can_handle_def create_task_def Let_def w1_def w2_def)

lemma demo_failed_eq:
  "demo_failed =
      \<lparr>agents = [w1, w2\<lparr>tasks := [(''u'', 0)]\<rparr>],
       task_queue = [], completed_tasks = [], failed_tasks = [0],
       is_running = True,
       heap = (\<lambda>r. new_task [] 0 [] PyNone)
                (0 := (new_task ''u'' 0 ''fail'' (PyDict []))
                        \<lparr>status := ''failed'', error := Some ''boom'',
                         started_at := Some 1, completed_at := Some 2\<rparr>),
       next_ref = 1, clock = (\<lambda>n. n), ticks = 3,
       uuid4 = (\<lambda>n. replicate (Suc n) CHR ''u''), uuids = 1\<rparr>"
  by (simp add: demo_failed_def pump_def demo_submitted_eq worker_iter_def get_agent_def
        process_task_def validate_task_def clock_reads_def can_handle_def w1_def w2_def
        Let_def new_task_def numeral_2_eq_2)

lemma demo_wait_fail:
  "wait_for_task 3 pump (Some ''w2'') (Some 0) demo_submitted
   = Some (Inr (0, demo_failed))"
proof -
  have a: "status (heap demo_submitted 0) = ''pending''"
    by (simp add: demo_submitted_eq)
  have b: "pump demo_submitted = demo_failed"
    by (simp add: demo_failed_def)
  have c: "refetch demo_failed (Some ''w2'') (task_id (heap demo_failed 0)) = Inr (Some 0)"
    by (simp add: demo_failed_eq refetch_def get_agent_def get_task_def w1_def w2_def)
  have d: "status (heap demo_failed 0) = ''failed''"
    by (simp add: demo_failed_eq)
  show ?thesis
    by (simp add: numeral_3_eq_3 a b c d)
qed

text \<open>
  Two workflows whose steps name their agents, with one pump loop at work during every
  sleep: the first stops at the failed step and never submits the second step, the second
  goes on and returns both tasks.
\<close>

lemma execute_workflow_named_steps:
  "execute_workflow 3 pump [fail_step (Some False), echo_step (Some ''w1'')] demo
     = Some (Inr ([0], demo_failed))
   \<and> status (heap demo_failed 0) = ''failed''
   \<and> next_ref demo_failed = 1
   \<and> execute_workflow 3 pump [fail_step None, echo_step (Some ''w1'')] demo
       = execute_workflow_loop 3 pump [echo_step (Some ''w1'')] [0] demo_failed
   \<and> map_option (map_sum id fst)
        (execute_workflow 3 pump [fail_step None, echo_step (Some ''w1'')] demo)
       = Some (Inr [0, 1])"
proof -
  have d: "status (heap demo_failed 0) = ''failed''" "next_ref demo_failed = 1"
    by (simp_all add: demo_failed_eq)
  have h1: "step_type (fail_step flag) = Some ''fail''" for flag
    by (simp add: fail_step_def)
  have h2: "submit_task ''fail''
              (case step_payload (fail_step flag) of None \<Rightarrow> PyDict [] | Some p \<Rightarrow> p)
              (step_agent (fail_step flag)) demo = (Some 0, demo_submitted)" for flag
    by (simp add: fail_step_def demo_submit_fail)
  have h3: "wait_for_task 3 pump (step_agent (fail_step flag)) (Some 0) demo_submitted
              = Some (Inr (0, demo_failed))" for flag
    by (simp add: fail_step_def demo_wait_fail)
  have stop: "execute_workflow 3 pump [fail_step (Some False), echo_step (Some ''w1'')] demo
               = Some (Inr ([0], demo_failed))"
    using execute_workflow_loop_polled_step
            [OF h1 [of "Some False"] h2 [of "Some False"] h3 [of "Some False"],
             of "[echo_step (Some ''w1'')]" "[]"]
    by (simp add: execute_workflow_def d) (simp add: fail_step_def)
  have go: "execute_workflow 3 pump [fail_step None, echo_step (Some ''w1'')] demo
              = execute_workflow_loop 3 pump [echo_step (Some ''w1'')] [0] demo_failed"
    using execute_workflow_loop_polled_step
            [OF h1 [of None] h2 [of None] h3 [of None], of "[echo_step (Some ''w1'')]" "[]"]
    by (simp add: execute_workflow_def d) (simp add: fail_step_def)
  have echo: "map_option (map_sum id fst)
                (execute_workflow_loop 3 pump [echo_step (Some ''w1'')] [0] demo_failed)
              = Some (Inr [0, 1])"
    by (simp add: workflow_step_def echo_step_def submit_task_def choose_agent_def
          get_agent_def can_handle_def create_task_def Let_def demo_failed_eq w1_def w2_def
          numeral_3_eq_3 pump_def worker_iter_def process_task_def validate_task_def
          clock_reads_def echo_execute_def refetch_def get_task_def)
  show ?thesis using stop go echo d by simp
qed

lemma demo_routed_eq:
  "demo_routed =
      \<lparr>agents = [w1, w2\<lparr>tasks := [(''u'', 0)]\<rparr>],
       task_queue = [(''w2'', 0)], completed_tasks = [], failed_tasks = [],
       is_running = True,
       heap = (\<lambda>r. new_task [] 0 [] PyNone)(0 := new_task ''u'' 0 ''fail'' (PyDict [])),
       next_ref = 1, clock = (\<lambda>n. n), ticks = 1,
       uuid4 = (\<lambda>n. replicate (Suc n) CHR ''u''), uuids = 1\<rparr>"
  by (simp add: demo_routed_def demo_eq submit_task_def choose_agent_def
       find_agent_for_task_def can_handle_def create_task_def Let_def w1_def w2_def)

text \<open>
  C8. A workflow whose first step is of type \<open>fail\<close>, names no agent and has
  \<open>continue_on_failure\<close> false, followed by a second step. The task of the first step
  is submitted to \<open>w2\<close>, and it has failed once a pump loop has taken it. The runner
  should then stop and return that one task. It returns nothing: after the first sleep
  the re-read yields \<open>None\<close> since the step named no agent, and the runner raises
  \<open>AttributeError\<close>, whatever the pump loops did meanwhile and however long it may poll.
\<close>

theorem execute_workflow_routed_failure_raises:
  "execute_workflow (Suc (Suc fuel)) sleep [routed_fail_step, echo_step None] demo
     = Some (Inl (AttributeError ''status''))
   \<and> execute_workflow 3 pump [routed_fail_step, echo_step None] demo
       = Some (Inl (AttributeError ''status''))
   \<and> fst (submit_task ''fail'' (PyDict []) None demo) = Some 0
   \<and> status (heap (pump demo_routed) 0) = ''failed''
   \<and> continue_on_failure routed_fail_step = Some False"
proof -
  have sub: "submit_task ''fail''
               (case step_payload routed_fail_step of None \<Rightarrow> PyDict [] | Some p \<Rightarrow> p)
               (step_agent routed_fail_step) demo = (Some 0, demo_routed)"
    by (simp add: routed_fail_step_def demo_routed_def submit_task_def choose_agent_def
          find_agent_for_task_def can_handle_def create_task_def Let_def demo_eq w1_def w2_def)
  have ty: "step_type routed_fail_step = Some ''fail''"
    and ag: "step_agent routed_fail_step = None \<or> step_agent routed_fail_step = Some []"
    and fl: "continue_on_failure routed_fail_step = Some False"
    by (simp_all add: routed_fail_step_def)
  have raises: "execute_workflow (Suc (Suc n)) sl [routed_fail_step, echo_step None] demo
                  = Some (Inl (AttributeError ''status''))" for n sl
    using workflow_step_routed_raises [OF ty ag sub, of n sl "[]"]
    by (simp add: execute_workflow_def)
  have failed: "status (heap (pump demo_routed) 0) = ''failed''"
    by (simp add: demo_routed_eq pump_def worker_iter_def get_agent_def process_task_def
          validate_task_def clock_reads_def can_handle_def w1_def w2_def Let_def)
  have first: "fst (submit_task ''fail'' (PyDict []) None demo) = Some 0"
    using sub by (simp add: routed_fail_step_def)
  from raises [of fuel sleep] raises [of "Suc 0" pump] failed first fl
  show ?thesis by (simp add: numeral_3_eq_3)
qed

end
